theory Spec2Isabelle
  imports Main
begin

section \<open>Strings of the analyzer\<close>

text \<open>
  A JavaScript string is a sequence of code units. The embedding takes the code units
  0..255 (\<^typ>\<open>char\<close>), which covers ASCII and Latin-1; every literal and every
  character class of \<^verbatim>\<open>documentAnalyzer.ts\<close> lies in ASCII. Within that range the
  white space of \<^verbatim>\<open>trim()\<close> and of the class \<^verbatim>\<open>\s\<close> is TAB, LF, VT, FF, CR,
  space and U+00A0, and the line terminators that \<^verbatim>\<open>.\<close> refuses are LF and CR.
\<close>

definition is_space :: "char \<Rightarrow> bool" where
  "is_space c = (c \<in> set [CHR 0x09, CHR 0x0A, CHR 0x0B, CHR 0x0C, CHR 0x0D, CHR 0x20, CHR 0xA0])"

definition is_line_terminator :: "char \<Rightarrow> bool" where
  "is_line_terminator c = (c = CHR 0x0A \<or> c = CHR 0x0D)"

definition lower_letters :: string where
  "lower_letters = ''abcdefghijklmnopqrstuvwxyz''"

definition upper_letters :: string where
  "upper_letters = ''ABCDEFGHIJKLMNOPQRSTUVWXYZ''"

definition is_lower :: "char \<Rightarrow> bool" where
  "is_lower c = (c \<in> set lower_letters)"

definition is_upper :: "char \<Rightarrow> bool" where
  "is_upper c = (c \<in> set upper_letters)"

definition is_digit :: "char \<Rightarrow> bool" where
  "is_digit c = (c \<in> set ''0123456789'')"

definition is_word :: "char \<Rightarrow> bool" where
  "is_word c = (is_lower c \<or> is_upper c \<or> is_digit c \<or> c = CHR ''_'')"

text \<open>\<^verbatim>\<open>toLowerCase\<close> and \<^verbatim>\<open>toUpperCase\<close> on one code unit of the range: the ASCII
  letters and the Latin-1 letters U+00C0..U+00DE (without the sign U+00D7) and
  U+00E0..U+00FE (without U+00F7) change case.\<close>

definition case_pairs :: "(char \<times> char) list" where
  \<comment> \<open>each upper-case letter with its lower-case letter\<close>
  "case_pairs = [
      (CHR ''A'', CHR ''a''), (CHR ''B'', CHR ''b''), (CHR ''C'', CHR ''c''), (CHR ''D'', CHR ''d''),
      (CHR ''E'', CHR ''e''), (CHR ''F'', CHR ''f''), (CHR ''G'', CHR ''g''), (CHR ''H'', CHR ''h''),
      (CHR ''I'', CHR ''i''), (CHR ''J'', CHR ''j''), (CHR ''K'', CHR ''k''), (CHR ''L'', CHR ''l''),
      (CHR ''M'', CHR ''m''), (CHR ''N'', CHR ''n''), (CHR ''O'', CHR ''o''), (CHR ''P'', CHR ''p''),
      (CHR ''Q'', CHR ''q''), (CHR ''R'', CHR ''r''), (CHR ''S'', CHR ''s''), (CHR ''T'', CHR ''t''),
      (CHR ''U'', CHR ''u''), (CHR ''V'', CHR ''v''), (CHR ''W'', CHR ''w''), (CHR ''X'', CHR ''x''),
      (CHR ''Y'', CHR ''y''), (CHR ''Z'', CHR ''z''), (CHR 0xC0, CHR 0xE0), (CHR 0xC1, CHR 0xE1),
      (CHR 0xC2, CHR 0xE2), (CHR 0xC3, CHR 0xE3), (CHR 0xC4, CHR 0xE4), (CHR 0xC5, CHR 0xE5),
      (CHR 0xC6, CHR 0xE6), (CHR 0xC7, CHR 0xE7), (CHR 0xC8, CHR 0xE8), (CHR 0xC9, CHR 0xE9),
      (CHR 0xCA, CHR 0xEA), (CHR 0xCB, CHR 0xEB), (CHR 0xCC, CHR 0xEC), (CHR 0xCD, CHR 0xED),
      (CHR 0xCE, CHR 0xEE), (CHR 0xCF, CHR 0xEF), (CHR 0xD0, CHR 0xF0), (CHR 0xD1, CHR 0xF1),
      (CHR 0xD2, CHR 0xF2), (CHR 0xD3, CHR 0xF3), (CHR 0xD4, CHR 0xF4), (CHR 0xD5, CHR 0xF5),
      (CHR 0xD6, CHR 0xF6), (CHR 0xD8, CHR 0xF8), (CHR 0xD9, CHR 0xF9), (CHR 0xDA, CHR 0xFA),
      (CHR 0xDB, CHR 0xFB), (CHR 0xDC, CHR 0xFC), (CHR 0xDD, CHR 0xFD), (CHR 0xDE, CHR 0xFE)]"

definition lower_char :: "char \<Rightarrow> char" where
  "lower_char c = (case map_of case_pairs c of None \<Rightarrow> c | Some l \<Rightarrow> l)"

definition upper_char :: "char \<Rightarrow> char" where
  "upper_char c = (case map_of (map (\<lambda>(u, l). (l, u)) case_pairs) c of None \<Rightarrow> c | Some u \<Rightarrow> u)"

definition toLowerCase :: "string \<Rightarrow> string" where
  "toLowerCase s = map lower_char s"

definition trimStart :: "string \<Rightarrow> string" where
  "trimStart s = dropWhile is_space s"

definition trimEnd :: "string \<Rightarrow> string" where
  "trimEnd s = rev (dropWhile is_space (rev s))"

definition trim :: "string \<Rightarrow> string" where
  "trim s = trimEnd (trimStart s)"

definition startsWith :: "string \<Rightarrow> string \<Rightarrow> bool" where
  "startsWith s p = (take (length p) s = p)"

text \<open>\<^verbatim>\<open>s.indexOf(sub, from)\<close>: the first index at or after \<open>from\<close> where \<open>sub\<close>
  occurs, and -1 when there is none. The empty string occurs at every index up to
  the length.\<close>

fun indexOf_from :: "string \<Rightarrow> string \<Rightarrow> nat \<Rightarrow> int" where
  "indexOf_from [] sub i = (if sub = [] then int i else -1)"
| "indexOf_from (c # s) sub i =
     (if take (length sub) (c # s) = sub then int i else indexOf_from s sub (Suc i))"

definition indexOf :: "string \<Rightarrow> string \<Rightarrow> nat \<Rightarrow> int" where
  "indexOf s sub from = indexOf_from (drop (min from (length s)) s) sub (min from (length s))"

definition includes_str :: "string \<Rightarrow> string \<Rightarrow> bool" where
  "includes_str s sub = (indexOf s sub 0 \<noteq> -1)"

definition substring :: "string \<Rightarrow> nat \<Rightarrow> nat \<Rightarrow> string" where
  "substring s i j = take (j - i) (drop i s)"

text \<open>\<^verbatim>\<open>s.split(sep)\<close> for a separator of one code unit; the result is never empty.\<close>

fun split_on :: "char \<Rightarrow> string \<Rightarrow> string list" where
  "split_on sep [] = [[]]"
| "split_on sep (c # s) =
     (if c = sep then [] # split_on sep s
      else (case split_on sep s of [] \<Rightarrow> [[c]] | p # ps \<Rightarrow> (c # p) # ps))"

section \<open>Regular expressions\<close>

text \<open>
  The analyzer is written with regular-expression literals. They are embedded as
  values of \<open>regex\<close> and run by a backtracking matcher that follows the ECMAScript
  semantics for the constructs the file uses: ordered alternation, greedy
  quantifiers, capture groups, the assertions \<^verbatim>\<open>^\<close>, \<^verbatim>\<open>$\<close> (no multiline flag) and
  \<^verbatim>\<open>\b\<close>, and the flag \<^verbatim>\<open>i\<close>.
\<close>

datatype cls = CChar char | CLower | CUpper | CSpace | CWord | CDigit

datatype regex =
    Lit string
  | AnyChar
  | Cls bool "cls list"
  | Bol
  | Eol
  | WordB
  | Seq regex regex
  | Alt regex regex
  | Star regex
  | Opt regex
  | Group nat regex

definition Plus :: "regex \<Rightarrow> regex" where
  "Plus r = Seq r (Star r)"

definition seqs :: "regex list \<Rightarrow> regex" where
  "seqs rs = foldr Seq rs (Lit [])"

definition alts :: "string list \<Rightarrow> regex" where
  "alts ws = foldr Alt (map Lit (butlast ws)) (Lit (last ws))"

fun in_cls :: "cls \<Rightarrow> char \<Rightarrow> bool" where
  "in_cls (CChar a) c = (c = a)"
| "in_cls CLower c = is_lower c"
| "in_cls CUpper c = is_upper c"
| "in_cls CSpace c = is_space c"
| "in_cls CWord c = is_word c"
| "in_cls CDigit c = is_digit c"

definition chr_eq :: "bool \<Rightarrow> char \<Rightarrow> char \<Rightarrow> bool" where
  "chr_eq ic a c = (if ic then upper_char a = upper_char c else a = c)"

definition in_classes :: "bool \<Rightarrow> cls list \<Rightarrow> char \<Rightarrow> bool" where
  "in_classes ic cs c =
     (if ic then list_ex (\<lambda>k. in_cls k c \<or> in_cls k (upper_char c) \<or> in_cls k (lower_char c)) cs
      else list_ex (\<lambda>k. in_cls k c) cs)"

text \<open>A matcher state is the end index reached and the captures made so far, the latest
  first: \<open>(n, i, j)\<close> says that group \<open>n\<close> matched the code units \<open>i..<j\<close>.\<close>

type_synonym mstate = "nat \<times> (nat \<times> nat \<times> nat) list"

text \<open>\<open>ms ic r s st\<close> lists every way \<open>r\<close> can match \<open>s\<close> from the state \<open>st\<close>, in the
  order in which a backtracking matcher tries them, so that the head of the list for
  the whole pattern is the match that \<^verbatim>\<open>exec\<close> reports. An iteration of \<^verbatim>\<open>*\<close> or \<^verbatim>\<open>?\<close>
  that consumes nothing is rejected, as ECMAScript does.\<close>

function ms :: "bool \<Rightarrow> regex \<Rightarrow> string \<Rightarrow> mstate \<Rightarrow> mstate list" where
  "ms ic (Lit w) s st =
     (if fst st + length w \<le> length s \<and> list_all2 (chr_eq ic) w (take (length w) (drop (fst st) s))
      then [(fst st + length w, snd st)] else [])"
| "ms ic AnyChar s st =
     (if fst st < length s \<and> \<not> is_line_terminator (s ! fst st) then [(Suc (fst st), snd st)] else [])"
| "ms ic (Cls neg cs) s st =
     (if fst st < length s \<and> (in_classes ic cs (s ! fst st) \<noteq> neg) then [(Suc (fst st), snd st)] else [])"
| "ms ic Bol s st = (if fst st = 0 then [st] else [])"
| "ms ic Eol s st = (if fst st = length s then [st] else [])"
| "ms ic WordB s st =
     (if (0 < fst st \<and> fst st \<le> length s \<and> is_word (s ! (fst st - 1)))
         \<noteq> (fst st < length s \<and> is_word (s ! fst st))
      then [st] else [])"
| "ms ic (Seq a b) s st = concat (map (\<lambda>st'. ms ic b s st') (ms ic a s st))"
| "ms ic (Alt a b) s st = ms ic a s st @ ms ic b s st"
| "ms ic (Star a) s st =
     concat (map (\<lambda>st'. if fst st < fst st' \<and> fst st' \<le> length s then ms ic (Star a) s st' else [])
                 (ms ic a s st)) @ [st]"
| "ms ic (Opt a) s st = filter (\<lambda>st'. fst st < fst st') (ms ic a s st) @ [st]"
| "ms ic (Group n a) s st = map (\<lambda>st'. (fst st', (n, fst st, fst st') # snd st')) (ms ic a s st)"
  by pat_completeness auto
termination
  by (relation "measures [\<lambda>(ic, r, s, st). size r, \<lambda>(ic, r, s, st). length s - fst st]") auto


text \<open>\<^verbatim>\<open>re.exec(s)\<close> with \<^verbatim>\<open>lastIndex = i\<close>: the leftmost start index at or after \<open>i\<close>
  where the pattern matches, with the first match found there. A match is the start
  index and the matcher state at its end.\<close>

type_synonym rmatch = "nat \<times> mstate"

function rsearch :: "bool \<Rightarrow> regex \<Rightarrow> string \<Rightarrow> nat \<Rightarrow> rmatch option" where
  "rsearch ic r s i =
     (if length s < i then None
      else (case ms ic r s (i, []) of
              [] \<Rightarrow> rsearch ic r s (Suc i)
            | st # _ \<Rightarrow> Some (i, st)))"
  by pat_completeness auto
termination
  by (relation "measure (\<lambda>(ic, r, s, i). Suc (length s) - i)") auto

definition m_index :: "rmatch \<Rightarrow> nat" where
  "m_index m = fst m"

definition m_end :: "rmatch \<Rightarrow> nat" where
  "m_end m = fst (snd m)"

text \<open>\<open>m_text s m\<close> is \<^verbatim>\<open>match[0]\<close>; \<open>m_group s m n\<close> is \<^verbatim>\<open>match[n]\<close>, \<open>None\<close> when
  the group took no part in the match (\<^verbatim>\<open>undefined\<close>).\<close>

definition m_text :: "string \<Rightarrow> rmatch \<Rightarrow> string" where
  "m_text s m = substring s (m_index m) (m_end m)"

definition m_group :: "string \<Rightarrow> rmatch \<Rightarrow> nat \<Rightarrow> string option" where
  "m_group s m n = map_option (\<lambda>(i, j). substring s i j) (map_of (snd (snd m)) n)"

definition re_test :: "bool \<Rightarrow> regex \<Rightarrow> string \<Rightarrow> bool" where
  "re_test ic r s = (rsearch ic r s 0 \<noteq> None)"

definition re_match :: "bool \<Rightarrow> regex \<Rightarrow> string \<Rightarrow> rmatch option" where
  "re_match ic r s = rsearch ic r s 0"

text \<open>\<^verbatim>\<open>s.replace(re, '')\<close> for a pattern without the flag \<^verbatim>\<open>g\<close>: the first match is
  cut out.\<close>

definition re_remove_first :: "regex \<Rightarrow> string \<Rightarrow> string" where
  "re_remove_first r s =
     (case rsearch False r s 0 of None \<Rightarrow> s | Some m \<Rightarrow> take (m_index m) s @ drop (m_end m) s)"

text \<open>The loop \<^verbatim>\<open>while ((m = re.exec(s)) !== null)\<close> over a pattern with the flag \<^verbatim>\<open>g\<close>:
  each search starts where the last match ended. On an empty match \<^verbatim>\<open>lastIndex\<close> would
  not move and the loop would not end; the result \<open>None\<close> stands for that. None of
  the patterns that the analyzer runs in such a loop can match the empty string, so the
  result is never \<open>None\<close> for them (\<open>exec_all_total\<close>, \<open>global_patterns_consuming\<close>).\<close>

function exec_all :: "regex \<Rightarrow> string \<Rightarrow> nat \<Rightarrow> rmatch list option" where
  "exec_all r s i =
     (case rsearch False r s i of
        None \<Rightarrow> Some []
      | Some m \<Rightarrow>
          (if i < m_end m \<and> m_end m \<le> length s
           then map_option (\<lambda>rest. m # rest) (exec_all r s (m_end m))
           else None))"
  by pat_completeness auto
termination
  by (relation "measure (\<lambda>(r, s, i). Suc (length s) - i)") auto


definition all_matches :: "regex \<Rightarrow> string \<Rightarrow> rmatch list" where
  "all_matches r s = (case exec_all r s 0 of None \<Rightarrow> [] | Some found \<Rightarrow> found)"

text \<open>The classes \<^verbatim>\<open>\s\<close>, \<^verbatim>\<open>\w\<close>, \<^verbatim>\<open>\d\<close> and the number \<^verbatim>\<open>-?\d+(?:\.\d+)?\<close>.\<close>

definition sp :: regex where "sp = Cls False [CSpace]"
definition wd :: regex where "wd = Cls False [CWord]"
definition dg :: regex where "dg = Cls False [CDigit]"

definition re_number :: regex where
  "re_number = seqs [Opt (Lit ''-''), Plus dg, Opt (seqs [Lit ''.'', Plus dg])]"

section \<open>Diagnostics and symbols\<close>

datatype DiagnosticSeverity = Error | Warning | Information | Hint

text \<open>A diagnostic of the language-server protocol; its range is the four numbers that
  \<^verbatim>\<open>addDiagnostic\<close> receives. Columns are integers: \<^verbatim>\<open>indexOf\<close> may give -1.\<close>

datatype Diagnostic = Diagnostic
  (severity: DiagnosticSeverity) (startLine: int) (startChar: int) (endLine: int) (endChar: int)
  (message: string) (source: string)

datatype SymbolInfo = SymbolInfo
  (name: string) (type: "string option") (line: nat) (character: int)

record AnalyzerOptions =
  warnOnHostFunctions :: bool

record DocumentAnalyzer =
  doc_text :: string
  uri :: string
  lines :: "string list"
  diagnostics :: "Diagnostic list"
  symbols :: "SymbolInfo list"
  options :: AnalyzerOptions
  functionNames :: "string list"

definition keywords_list :: "string list" where
  "keywords_list =
    [''var'', ''if'', ''then'', ''else'', ''elseif'', ''end'', ''switch'', ''do'', ''case'', ''default'',
     ''while'', ''for'', ''foreach'', ''in'', ''to'', ''downto'', ''by'', ''return'', ''fail'', ''break'',
     ''continue'', ''true'', ''false'', ''null'', ''and'', ''or'', ''not'', ''is'', ''Data'']"

definition typeKeywords :: "string list" where
  "typeKeywords = [''number'', ''string'', ''boolean'', ''object'', ''array'']"

text \<open>The names of \<^verbatim>\<open>STDLIB_FUNCTIONS\<close> (\<^verbatim>\<open>shared/src/stdlib.ts\<close>), in the order of the
  table.\<close>

definition getAllFunctionNames :: "string list" where
  "getAllFunctionNames =
    [''ToUpper'', ''ToLower'', ''Trim'', ''Replace'', ''Contains'', ''StartsWith'', ''EndsWith'',
     ''Split'', ''Join'', ''Substring'', ''ToNumber'', ''PadLeft'', ''PadRight'', ''RegexTest'',
     ''RegexMatch'', ''RegexMatchAll'', ''RegexMatchDetail'', ''RandomString'', ''Length'',
     ''Append'', ''Prepend'', ''First'', ''Last'', ''IndexOf'', ''Reverse'', ''Slice'',
     ''Concatenate'', ''Distinct'', ''Sort'', ''Flatten'', ''FlattenOnce'', ''Range'', ''Skip'',
     ''Insert'', ''RemoveAt'', ''RemoveFirst'', ''RemoveLast'', ''RandomChoice'', ''SortByField'',
     ''GroupBy'', ''SelectMany'', ''Abs'', ''Floor'', ''Ceiling'', ''Min'', ''Max'', ''Power'',
     ''SquareRoot'', ''Log'', ''Sum'', ''Average'', ''Clamp'', ''Median'', ''Mode'', ''RandomInt'',
     ''Now'', ''Today'', ''ParseDate'', ''FormatDate'', ''DateAdd'', ''DateDiff'', ''DatePart'',
     ''WhereByField'', ''FindByField'', ''AnyByField'', ''AllByField'', ''CountIf'', ''Select'',
     ''Project'', ''Omit'', ''Map'', ''Where'', ''Reduce'', ''Each'', ''Find'', ''All'', ''Any'',
     ''SortBy'', ''TypeOf'', ''Equal'', ''NotEqual'', ''Coalesce'', ''ToString'', ''ToBoolean'',
     ''Keys'', ''Values'', ''HasProperty'', ''Merge'', ''Clone'', ''NewGuid'', ''Base64Encode'',
     ''Base64Decode'', ''FromJson'', ''ToJson'', ''Sleep'', ''ValidateRequired'',
     ''ValidateSchema'']"

text \<open>The constructor: the text is split at LF and one CR at the end of each line
  (\<^verbatim>\<open>/\r$/\<close>) is dropped.\<close>

definition re_trailing_cr :: regex where
  "re_trailing_cr = seqs [Lit [CHR 0x0D], Eol]"

definition new_DocumentAnalyzer :: "string \<Rightarrow> string \<Rightarrow> AnalyzerOptions \<Rightarrow> DocumentAnalyzer" where
  "new_DocumentAnalyzer t u opts =
     \<lparr>doc_text = t, uri = u,
      lines = map (re_remove_first re_trailing_cr) (split_on CHR 0x0A t),
      diagnostics = [], symbols = [], options = opts,
      functionNames = getAllFunctionNames\<rparr>"

definition default_options :: AnalyzerOptions where
  "default_options = \<lparr>warnOnHostFunctions = True\<rparr>"

section \<open>The string-literal scanner\<close>

definition dquote :: char where "dquote = CHR 0x22"
definition squote :: char where "squote = CHR 0x27"
definition backslash :: char where "backslash = CHR 0x5C"

text \<open>The inner loop of both scanners: \<open>backslashCount line i\<close> is the value of
  \<^verbatim>\<open>backslashCount\<close> when the loop from \<^verbatim>\<open>j = i - 1\<close> downwards stops.\<close>

fun backslashCount :: "string \<Rightarrow> nat \<Rightarrow> nat" where
  "backslashCount ln 0 = 0"
| "backslashCount ln (Suc j) = (if ln ! j = backslash then Suc (backslashCount ln j) else 0)"

text \<open>\<^verbatim>\<open>inString\<close> is \<^verbatim>\<open>false\<close> (\<open>None\<close>) or the quote that opened the literal.\<close>

function hbs_loop :: "string \<Rightarrow> nat \<Rightarrow> char option \<Rightarrow> char option" where
  "hbs_loop ln i inString =
     (if i < length ln then
        (let c = ln ! i in
         if c = dquote \<or> c = squote then
           (if backslashCount ln i mod 2 = 0 then
              (if inString = None then hbs_loop ln (Suc i) (Some c)
               else if inString = Some c then hbs_loop ln (Suc i) None
               else hbs_loop ln (Suc i) inString)
            else hbs_loop ln (Suc i) inString)
         else hbs_loop ln (Suc i) inString)
      else inString)"
  by pat_completeness auto
termination
  by (relation "measure (\<lambda>(ln, i, inString). length ln - i)") auto

definition hasBalancedStrings :: "string \<Rightarrow> bool" where
  "hasBalancedStrings ln = (hbs_loop ln 0 None = None)"

text \<open>\<^verbatim>\<open>removeStringLiterals\<close>: the loop carries \<^verbatim>\<open>result\<close>, \<^verbatim>\<open>inString\<close> and
  \<^verbatim>\<open>stringStart\<close>. A quote never goes to the result as it is: a closing quote
  appends two double quotes, an escaped one is dropped.\<close>

function rsl_loop :: "string \<Rightarrow> nat \<Rightarrow> string \<Rightarrow> char option \<Rightarrow> int \<Rightarrow> string \<times> char option \<times> int" where
  "rsl_loop ln i result inString stringStart =
     (if i < length ln then
        (let c = ln ! i in
         if c = dquote \<or> c = squote then
           (if backslashCount ln i mod 2 = 0 then
              (if inString = None then rsl_loop ln (Suc i) result (Some c) (int i)
               else if inString = Some c then rsl_loop ln (Suc i) (result @ [dquote, dquote]) None stringStart
               else rsl_loop ln (Suc i) result inString stringStart)
            else rsl_loop ln (Suc i) result inString stringStart)
         else if inString = None then rsl_loop ln (Suc i) (result @ [c]) inString stringStart
         else rsl_loop ln (Suc i) result inString stringStart)
      else (result, inString, stringStart))"
  by pat_completeness auto
termination
  by (relation "measure (\<lambda>(ln, i, result, inString, stringStart). length ln - i)") auto

definition removeStringLiterals :: "string \<Rightarrow> string" where
  "removeStringLiterals ln =
     (case rsl_loop ln 0 [] None (-1) of
        (result, inString, stringStart) \<Rightarrow>
          if inString \<noteq> None then result @ drop (nat stringStart) ln else result)"


section \<open>checkSyntax\<close>

text \<open>The state of the pass over the lines: the three locals of \<^verbatim>\<open>checkSyntax\<close> and the
  diagnostics of the analyzer. The top of \<^verbatim>\<open>blockStack\<close> is the last element, as in the
  array.\<close>

record syntax_state =
  blockStack :: "(string \<times> nat) list"
  inLoop :: int
  afterTerminator :: bool
  diags :: "Diagnostic list"

definition addDiagnostic ::
  "int \<Rightarrow> int \<Rightarrow> int \<Rightarrow> int \<Rightarrow> string \<Rightarrow> DiagnosticSeverity \<Rightarrow> Diagnostic list \<Rightarrow> Diagnostic list" where
  "addDiagnostic sl sc el ec msg sev ds = ds @ [Diagnostic sev sl sc el ec msg ''jyro'']"

text \<open>The patterns of \<^verbatim>\<open>checkSyntax\<close>, in the order of the source.\<close>

definition re_comment :: regex where
  \<comment> \<open>\<^verbatim>\<open>/#.*$/\<close>\<close>
  "re_comment = seqs [Lit ''#'', Star AnyChar, Eol]"

definition re_blockBoundary :: regex where
  \<comment> \<open>\<^verbatim>\<open>/^(end|else|elseif|case|default)\b/\<close>\<close>
  "re_blockBoundary =
     seqs [Bol, Group 1 (alts [''end'', ''else'', ''elseif'', ''case'', ''default'']), WordB]"

definition re_terminator :: regex where
  \<comment> \<open>\<^verbatim>\<open>/^(return|fail)\b/\<close>\<close>
  "re_terminator = seqs [Bol, Group 1 (alts [''return'', ''fail'']), WordB]"

definition re_elseif :: regex where
  \<comment> \<open>\<^verbatim>\<open>/^\s*elseif\b/i\<close>\<close>
  "re_elseif = seqs [Bol, Star sp, Lit ''elseif'', WordB]"

definition re_blockStart :: regex where
  \<comment> \<open>\<^verbatim>\<open>/\b(if|while|for|foreach|switch)\b/\<close>\<close>
  "re_blockStart =
     seqs [WordB, Group 1 (alts [''if'', ''while'', ''for'', ''foreach'', ''switch'']), WordB]"

definition re_end :: regex where
  \<comment> \<open>\<^verbatim>\<open>/\bend\b/\<close>\<close>
  "re_end = seqs [WordB, Lit ''end'', WordB]"

definition re_breakContinue :: regex where
  \<comment> \<open>\<^verbatim>\<open>/\b(break|continue)\b/\<close>\<close>
  "re_breakContinue = seqs [WordB, Group 1 (alts [''break'', ''continue'']), WordB]"

definition re_step :: regex where
  \<comment> \<open>\<^verbatim>\<open>/\bby\s+(-?\d+(?:\.\d+)?)\b/\<close>\<close>
  "re_step = seqs [WordB, Lit ''by'', Plus sp, Group 1 re_number, WordB]"

definition re_sleep :: regex where
  \<comment> \<open>\<^verbatim>\<open>/\bSleep\s*\(\s*(-?\d+(?:\.\d+)?)\s*\)/\<close>\<close>
  "re_sleep =
     seqs [WordB, Lit ''Sleep'', Star sp, Lit ''('', Star sp, Group 1 re_number, Star sp, Lit '')'']"

definition re_varStart :: regex where
  \<comment> \<open>\<^verbatim>\<open>/^\s*var\s+/\<close>\<close>
  "re_varStart = seqs [Bol, Star sp, Lit ''var'', Plus sp]"

definition re_typeAnnot :: regex where
  \<comment> \<open>\<^verbatim>\<open>/^var\s+\w+\s*:\s*(\w+)/\<close>\<close>
  "re_typeAnnot =
     seqs [Bol, Lit ''var'', Plus sp, Plus wd, Star sp, Lit '':'', Star sp, Group 1 (Plus wd)]"

definition re_funcCall :: regex where
  \<comment> \<open>\<^verbatim>\<open>/\b([A-Z][a-zA-Z0-9]*)\s*\(/g\<close>\<close>
  "re_funcCall =
     seqs [WordB,
           Group 1 (seqs [Cls False [CUpper], Star (Cls False [CLower, CUpper, CDigit])]),
           Star sp, Lit ''('']"

text \<open>\<^verbatim>\<open>parseFloat(t) <= 0\<close> for a text \<open>t\<close> that \<^verbatim>\<open>-?\d+(?:\.\d+)?\<close> matched. With a
  sign the value is negative or -0. Without one the value is 0 exactly when the
  correctly rounded double is 0: the integer part is 0 and the fraction is at most
  \<open>2 ^ -1075\<close>, half of the least positive double.\<close>

definition digit_val :: "char \<Rightarrow> nat" where
  "digit_val c = (case map_of (zip ''0123456789'' [0, 1, 2, 3, 4, 5, 6, 7, 8, 9]) c of
                    None \<Rightarrow> 0 | Some d \<Rightarrow> d)"

definition digits_val :: "string \<Rightarrow> nat" where
  "digits_val ds = foldl (\<lambda>v c. 10 * v + digit_val c) 0 ds"

definition parseFloat_le_zero :: "string \<Rightarrow> bool" where
  "parseFloat_le_zero t =
     (let neg = startsWith t ''-'';
          body = (if neg then drop 1 t else t);
          ip = takeWhile is_digit body;
          fp = drop 1 (dropWhile is_digit body)
      in neg \<or> (digits_val ip = 0 \<and> digits_val fp * 2 ^ 1075 \<le> 10 ^ length fp))"

definition is_skipped :: "string \<Rightarrow> bool" where
  \<comment> \<open>\<^verbatim>\<open>trimmed.startsWith('#') || trimmed.length === 0\<close>\<close>
  "is_skipped ln = (startsWith (trim ln) ''#'' \<or> length (trim ln) = 0)"

definition masked :: "string \<Rightarrow> string" where
  \<comment> \<open>\<^verbatim>\<open>trimmedWithoutStrings\<close>\<close>
  "masked ln = removeStringLiterals (re_remove_first re_comment (trim ln))"

definition is_loop :: "string \<Rightarrow> bool" where
  "is_loop k = (k = ''while'' \<or> k = ''foreach'' \<or> k = ''for'')"

text \<open>The body of the \<^verbatim>\<open>forEach\<close> callback, one definition for each check, in the order of
  the source. The counts of brackets and the test for a mix of \<^verbatim>\<open>=\<close> and \<^verbatim>\<open>==\<close> compute
  values that the source never uses; they are left out.\<close>

definition check_unreachable :: "nat \<Rightarrow> string \<Rightarrow> syntax_state \<Rightarrow> syntax_state" where
  "check_unreachable lineIndex ln st =
     (let isBlockBoundary = re_test False re_blockBoundary (masked ln);
          st1 = (if afterTerminator st \<and> \<not> isBlockBoundary
                 then st\<lparr>diags := addDiagnostic (int lineIndex) 0 (int lineIndex) (int (length (trim ln)))
                                     ''Unreachable code detected'' Warning (diags st)\<rparr>
                 else st)
      in if isBlockBoundary then st1\<lparr>afterTerminator := False\<rparr>
         else if re_test False re_terminator (masked ln) then st1\<lparr>afterTerminator := True\<rparr>
         else st1)"

definition check_strings :: "nat \<Rightarrow> string \<Rightarrow> syntax_state \<Rightarrow> syntax_state" where
  "check_strings lineIndex ln st =
     (if \<not> hasBalancedStrings ln
      then st\<lparr>diags := addDiagnostic (int lineIndex) 0 (int lineIndex) (int (length ln))
                          ''Unclosed string literal'' Error (diags st)\<rparr>
      else st)"

definition check_blockStart :: "nat \<Rightarrow> string \<Rightarrow> syntax_state \<Rightarrow> syntax_state" where
  "check_blockStart lineIndex ln st =
     (let startsWithElseif = re_test True re_elseif (trim ln) in
      if \<not> startsWithElseif \<and> re_test False re_blockStart (masked ln) then
        (case re_match False re_blockStart (masked ln) of
           None \<Rightarrow> st
         | Some m \<Rightarrow>
             (case m_group (masked ln) m 1 of
                None \<Rightarrow> st
              | Some k \<Rightarrow>
                  st\<lparr>blockStack := blockStack st @ [(k, lineIndex)],
                     inLoop := (if is_loop k then inLoop st + 1 else inLoop st)\<rparr>))
      else st)"

definition check_end :: \<open>nat \<Rightarrow> string \<Rightarrow> syntax_state \<Rightarrow> syntax_state\<close> where
  \<open>check_end lineIndex ln st =
     (if re_test False re_end (masked ln) then
        (if length (blockStack st) = 0
         then st\<lparr>diags := addDiagnostic (int lineIndex) 0 (int lineIndex) (int (length (trim ln)))
                             ''Unexpected "end" without matching block start'' Error (diags st)\<rparr>
         else st\<lparr>blockStack := butlast (blockStack st),
                 inLoop := (if is_loop (fst (last (blockStack st))) then inLoop st - 1 else inLoop st)\<rparr>)
      else st)\<close>

definition check_breakContinue :: \<open>nat \<Rightarrow> string \<Rightarrow> syntax_state \<Rightarrow> syntax_state\<close> where
  \<open>check_breakContinue lineIndex ln st =
     (if re_test False re_breakContinue (masked ln) \<and> inLoop st = 0
      then st\<lparr>diags := addDiagnostic (int lineIndex) 0 (int lineIndex) (int (length (trim ln)))
                          ([dquote] @ (if includes_str (masked ln) ''break'' then ''break'' else ''continue'')
                           @ ''" can only be used inside loops'')
                          Error (diags st)\<rparr>
      else st)\<close>


text \<open>The span of a numeric literal: \<^verbatim>\<open>line.indexOf(match[0]) + match[0].indexOf(match[1])\<close>.
  The match is found in the masked text and looked up in the line as it is.\<close>

definition literal_check ::
  "regex \<Rightarrow> string \<Rightarrow> nat \<Rightarrow> string \<Rightarrow> syntax_state \<Rightarrow> syntax_state" where
  "literal_check r msg lineIndex ln st =
     (case re_match False r (masked ln) of
        None \<Rightarrow> st
      | Some m \<Rightarrow>
          (case m_group (masked ln) m 1 of
             None \<Rightarrow> st
           | Some v \<Rightarrow>
               if parseFloat_le_zero v then
                 (let valueStart = indexOf ln (m_text (masked ln) m) 0
                                   + indexOf (m_text (masked ln) m) v 0
                  in st\<lparr>diags := addDiagnostic (int lineIndex) valueStart (int lineIndex)
                                      (valueStart + int (length v)) msg Error (diags st)\<rparr>)
               else st))"

definition check_step :: "nat \<Rightarrow> string \<Rightarrow> syntax_state \<Rightarrow> syntax_state" where
  "check_step = literal_check re_step ''For loop step must be a positive number''"

definition check_sleep :: "nat \<Rightarrow> string \<Rightarrow> syntax_state \<Rightarrow> syntax_state" where
  "check_sleep = literal_check re_sleep ''Sleep() requires a positive integer millisecond value''"

definition unknown_type_message :: \<open>string \<Rightarrow> string\<close> where
  \<open>unknown_type_message t =
     ''Unknown type "'' @ t @ ''". Expected: number, string, boolean, object, or array''\<close>

definition check_typeAnnotation :: "nat \<Rightarrow> string \<Rightarrow> syntax_state \<Rightarrow> syntax_state" where
  "check_typeAnnotation lineIndex ln st =
     (if re_test False re_varStart (trim ln) then
        (case re_match False re_typeAnnot (trim ln) of
           None \<Rightarrow> st
         | Some m \<Rightarrow>
             (case m_group (trim ln) m 1 of
                None \<Rightarrow> st
              | Some t \<Rightarrow>
                  if t \<notin> set typeKeywords then
                    (let pos = indexOf ln t 0
                     in st\<lparr>diags := addDiagnostic (int lineIndex) pos (int lineIndex) (pos + int (length t))
                                         (unknown_type_message t) Error (diags st)\<rparr>)
                  else st))
      else st)"

definition host_function_message :: \<open>string \<Rightarrow> string\<close> where
  \<open>host_function_message f =
     ''Referenced function "'' @ f @ ''" will need to be made available at runtime''\<close>

text \<open>One turn of the loop over the calls of a line; \<^verbatim>\<open>continue\<close> leaves the diagnostics
  as they are.\<close>

definition host_function_step ::
  "string list \<Rightarrow> nat \<Rightarrow> string \<Rightarrow> Diagnostic list \<Rightarrow> rmatch \<Rightarrow> Diagnostic list" where
  "host_function_step fns lineIndex ln ds funcMatch =
     (case m_group (masked ln) funcMatch 1 of
        None \<Rightarrow> ds
      | Some funcName \<Rightarrow>
          if funcName \<in> set keywords_list then ds
          else if funcName \<notin> set fns then
            (let leadingWhitespace = length ln - length (trimStart ln);
                 pos = int leadingWhitespace + int (m_index funcMatch)
             in addDiagnostic (int lineIndex) pos (int lineIndex) (pos + int (length funcName))
                  (host_function_message funcName) Information ds)
          else ds)"

definition check_hostFunctions ::
  "bool \<Rightarrow> string list \<Rightarrow> nat \<Rightarrow> string \<Rightarrow> syntax_state \<Rightarrow> syntax_state" where
  "check_hostFunctions warn fns lineIndex ln st =
     (if warn
      then st\<lparr>diags := foldl (host_function_step fns lineIndex ln) (diags st)
                          (all_matches re_funcCall (masked ln))\<rparr>
      else st)"

definition checkSyntax_line ::
  "bool \<Rightarrow> string list \<Rightarrow> nat \<Rightarrow> string \<Rightarrow> syntax_state \<Rightarrow> syntax_state" where
  "checkSyntax_line warn fns lineIndex ln st =
     (if is_skipped ln then st
      else check_hostFunctions warn fns lineIndex ln
            (check_typeAnnotation lineIndex ln
              (check_sleep lineIndex ln
                (check_step lineIndex ln
                  (check_breakContinue lineIndex ln
                    (check_end lineIndex ln
                      (check_blockStart lineIndex ln
                        (check_strings lineIndex ln
                          (check_unreachable lineIndex ln st)))))))))"

text \<open>\<^verbatim>\<open>this.lines.forEach((line, lineIndex) => ...)\<close> from the index \<open>i\<close> on.\<close>

fun forEach_line :: "(nat \<Rightarrow> string \<Rightarrow> 's \<Rightarrow> 's) \<Rightarrow> nat \<Rightarrow> string list \<Rightarrow> 's \<Rightarrow> 's" where
  "forEach_line f i [] st = st"
| "forEach_line f i (ln # rest) st = forEach_line f (Suc i) rest (f i ln st)"

definition syntax_init :: "Diagnostic list \<Rightarrow> syntax_state" where
  "syntax_init ds = \<lparr>blockStack = [], inLoop = 0, afterTerminator = False, diags = ds\<rparr>"

definition unclosed_message :: \<open>string \<Rightarrow> string\<close> where
  \<open>unclosed_message k = ''Unclosed "'' @ k @ ''" block - missing "end"''\<close>

definition check_unclosed :: "string list \<Rightarrow> syntax_state \<Rightarrow> Diagnostic list" where
  "check_unclosed lns st =
     (if length (blockStack st) > 0 then
        (let unclosed = last (blockStack st)
         in addDiagnostic (int (snd unclosed)) 0 (int (snd unclosed)) (int (length (lns ! snd unclosed)))
              (unclosed_message (fst unclosed)) Error (diags st))
      else diags st)"

definition syntax_scan :: "DocumentAnalyzer \<Rightarrow> syntax_state" where
  "syntax_scan a =
     forEach_line (checkSyntax_line (warnOnHostFunctions (options a)) (functionNames a)) 0 (lines a)
       (syntax_init (diagnostics a))"

definition checkSyntax :: "DocumentAnalyzer \<Rightarrow> DocumentAnalyzer" where
  "checkSyntax a = a\<lparr>diagnostics := check_unclosed (lines a) (syntax_scan a)\<rparr>"


section \<open>extractSymbols\<close>

definition re_varDecl :: regex where
  \<comment> \<open>\<^verbatim>\<open>/\bvar\s+(\w+)(?:\s*:\s*(\w+))?/g\<close>\<close>
  "re_varDecl =
     seqs [WordB, Lit ''var'', Plus sp, Group 1 (Plus wd),
           Opt (seqs [Star sp, Lit '':'', Star sp, Group 2 (Plus wd)])]"

definition re_foreach :: regex where
  \<comment> \<open>\<^verbatim>\<open>/\bforeach\s+(\w+)\s+in\b/\<close>\<close>
  "re_foreach = seqs [WordB, Lit ''foreach'', Plus sp, Group 1 (Plus wd), Plus sp, Lit ''in'', WordB]"

definition re_for :: regex where
  \<comment> \<open>\<^verbatim>\<open>/\bfor\s+(\w+)\s+in\b/\<close>\<close>
  "re_for = seqs [WordB, Lit ''for'', Plus sp, Group 1 (Plus wd), Plus sp, Lit ''in'', WordB]"

definition re_parenLambda :: regex where
  \<comment> \<open>\<^verbatim>\<open>/\(([^)]*)\)\s*=>/g\<close>\<close>
  "re_parenLambda =
     seqs [Lit ''('', Group 1 (Star (Cls True [CChar CHR '')''])), Lit '')'', Star sp, Lit ''=>'']"

definition re_wordOnly :: regex where
  \<comment> \<open>\<^verbatim>\<open>/^\w+$/\<close>\<close>
  "re_wordOnly = seqs [Bol, Plus wd, Eol]"

definition re_bareLambda :: regex where
  \<comment> \<open>\<^verbatim>\<open>/\b(\w+)\s*=>/g\<close>\<close>
  "re_bareLambda = seqs [WordB, Group 1 (Plus wd), Star sp, Lit ''=>'']"

definition ident_start :: regex where
  \<comment> \<open>\<^verbatim>\<open>[a-zA-Z_]\<close>\<close>
  "ident_start = Cls False [CLower, CUpper, CChar CHR ''_'']"

definition re_propAssign :: regex where
  \<comment> \<open>\<^verbatim>\<open>/\b([a-zA-Z_]\w*(?:\.[a-zA-Z_]\w*)+)\s*=/g\<close>\<close>
  "re_propAssign =
     seqs [WordB,
           Group 1 (seqs [ident_start, Star wd, Plus (seqs [Lit ''.'', ident_start, Star wd])]),
           Star sp, Lit ''='']"

text \<open>The state of the pass: \<^verbatim>\<open>this.symbols\<close> and the local \<^verbatim>\<open>seenProps\<close>, a set that is
  only tested and extended, kept as the list of its elements.\<close>

record symbol_state =
  syms :: "SymbolInfo list"
  seenProps :: "string list"

definition var_step :: "nat \<Rightarrow> string \<Rightarrow> SymbolInfo list \<Rightarrow> rmatch \<Rightarrow> SymbolInfo list" where
  "var_step lineIndex ln ss varMatch =
     (case m_group (trim ln) varMatch 1 of
        None \<Rightarrow> ss
      | Some varName \<Rightarrow>
          ss @ [SymbolInfo varName (m_group (trim ln) varMatch 2) lineIndex
                  (indexOf ln varName (m_index varMatch))])"

definition extract_vars :: "nat \<Rightarrow> string \<Rightarrow> SymbolInfo list \<Rightarrow> SymbolInfo list" where
  "extract_vars lineIndex ln ss = foldl (var_step lineIndex ln) ss (all_matches re_varDecl (trim ln))"

definition extract_foreach :: "nat \<Rightarrow> string \<Rightarrow> SymbolInfo list \<Rightarrow> SymbolInfo list" where
  "extract_foreach lineIndex ln ss =
     (case re_match False re_foreach (trim ln) of
        None \<Rightarrow> ss
      | Some m \<Rightarrow>
          (case m_group (trim ln) m 1 of
             None \<Rightarrow> ss
           | Some varName \<Rightarrow> ss @ [SymbolInfo varName (Some ''iterator'') lineIndex (indexOf ln varName 0)]))"

definition extract_for :: "nat \<Rightarrow> string \<Rightarrow> SymbolInfo list \<Rightarrow> SymbolInfo list" where
  "extract_for lineIndex ln ss =
     (case re_match False re_for (trim ln) of
        None \<Rightarrow> ss
      | Some m \<Rightarrow>
          (case m_group (trim ln) m 1 of
             None \<Rightarrow> ss
           | Some varName \<Rightarrow>
               ss @ [SymbolInfo varName (Some ''iterator'') lineIndex (indexOf ln varName (m_index m))]))"

definition param_step :: "nat \<Rightarrow> string \<Rightarrow> rmatch \<Rightarrow> SymbolInfo list \<Rightarrow> string \<Rightarrow> SymbolInfo list" where
  "param_step lineIndex ln lambdaMatch ss param =
     (let paramName = trim param in
      if paramName \<noteq> [] \<and> re_test False re_wordOnly paramName
      then ss @ [SymbolInfo paramName (Some ''lambda-param'') lineIndex
                   (indexOf ln paramName (m_index lambdaMatch))]
      else ss)"

definition parenLambda_step :: "nat \<Rightarrow> string \<Rightarrow> SymbolInfo list \<Rightarrow> rmatch \<Rightarrow> SymbolInfo list" where
  "parenLambda_step lineIndex ln ss lambdaMatch =
     (case m_group (trim ln) lambdaMatch 1 of
        None \<Rightarrow> ss
      | Some ps \<Rightarrow> foldl (param_step lineIndex ln lambdaMatch) ss (split_on CHR '','' ps))"

definition extract_parenLambdas :: "nat \<Rightarrow> string \<Rightarrow> SymbolInfo list \<Rightarrow> SymbolInfo list" where
  "extract_parenLambdas lineIndex ln ss =
     foldl (parenLambda_step lineIndex ln) ss (all_matches re_parenLambda (trim ln))"

definition bareLambda_step :: "nat \<Rightarrow> string \<Rightarrow> SymbolInfo list \<Rightarrow> rmatch \<Rightarrow> SymbolInfo list" where
  "bareLambda_step lineIndex ln ss bareMatch =
     (case m_group (trim ln) bareMatch 1 of
        None \<Rightarrow> ss
      | Some paramName \<Rightarrow>
          if \<not> list_ex (\<lambda>s. name s = paramName \<and> line s = lineIndex \<and> type s = Some ''lambda-param'') ss
          then ss @ [SymbolInfo paramName (Some ''lambda-param'') lineIndex
                       (indexOf ln paramName (m_index bareMatch))]
          else ss)"

definition extract_bareLambdas :: "nat \<Rightarrow> string \<Rightarrow> SymbolInfo list \<Rightarrow> SymbolInfo list" where
  "extract_bareLambdas lineIndex ln ss =
     foldl (bareLambda_step lineIndex ln) ss (all_matches re_bareLambda (trim ln))"

definition prop_step :: "nat \<Rightarrow> string \<Rightarrow> symbol_state \<Rightarrow> rmatch \<Rightarrow> symbol_state" where
  "prop_step lineIndex ln st propMatch =
     (case m_group (trim ln) propMatch 1 of
        None \<Rightarrow> st
      | Some propPath \<Rightarrow>
          if propPath \<notin> set (seenProps st)
          then \<lparr>syms = syms st @ [SymbolInfo propPath (Some ''property'') lineIndex (indexOf ln propPath 0)],
                seenProps = seenProps st @ [propPath]\<rparr>
          else st)"

definition extract_props :: "nat \<Rightarrow> string \<Rightarrow> symbol_state \<Rightarrow> symbol_state" where
  "extract_props lineIndex ln st =
     foldl (prop_step lineIndex ln) st (all_matches re_propAssign (trim ln))"

definition extractSymbols_line :: "nat \<Rightarrow> string \<Rightarrow> symbol_state \<Rightarrow> symbol_state" where
  "extractSymbols_line lineIndex ln st =
     (if is_skipped ln then st
      else extract_props lineIndex ln
             (st\<lparr>syms := extract_bareLambdas lineIndex ln
                           (extract_parenLambdas lineIndex ln
                             (extract_for lineIndex ln
                               (extract_foreach lineIndex ln
                                 (extract_vars lineIndex ln (syms st)))))\<rparr>))"

definition extractSymbols :: "DocumentAnalyzer \<Rightarrow> DocumentAnalyzer" where
  "extractSymbols a =
     a\<lparr>symbols := syms (forEach_line extractSymbols_line 0 (lines a)
                           \<lparr>syms = symbols a, seenProps = []\<rparr>)\<rparr>"

section \<open>validateSemantics\<close>

definition re_identifier :: regex where
  \<comment> \<open>\<^verbatim>\<open>/\b([a-zA-Z_]\w*)\b/g\<close>\<close>
  "re_identifier = seqs [WordB, Group 1 (seqs [ident_start, Star wd]), WordB]"

definition re_afterIdent :: regex where
  \<comment> \<open>\<^verbatim>\<open>/^\s*\(/\<close>\<close>
  "re_afterIdent = seqs [Bol, Star sp, Lit ''('']"

definition re_afterKey :: regex where
  \<comment> \<open>\<^verbatim>\<open>/^\s*:/\<close>\<close>
  "re_afterKey = seqs [Bol, Star sp, Lit '':'']"

text \<open>\<^verbatim>\<open>s[i]\<close>, \<^verbatim>\<open>undefined\<close> (\<open>None\<close>) out of range.\<close>

definition char_at :: "string \<Rightarrow> nat \<Rightarrow> char option" where
  "char_at s i = (if i < length s then Some (s ! i) else None)"

definition undefined_variable_message :: \<open>string \<Rightarrow> string\<close> where
  \<open>undefined_variable_message v = ''Undefined variable "'' @ v @ [dquote]\<close>

definition semantic_step ::
  "string list \<Rightarrow> string list \<Rightarrow> nat \<Rightarrow> string \<Rightarrow> Diagnostic list \<Rightarrow> rmatch \<Rightarrow> Diagnostic list" where
  "semantic_step fns declaredVars lineIndex lineWithoutComments ds m =
     (case m_group lineWithoutComments m 1 of
        None \<Rightarrow> ds
      | Some varName \<Rightarrow>
          (let pos = m_index m;
               endPos = pos + length varName;
               after = drop endPos lineWithoutComments
           in if pos > 0 \<and> char_at lineWithoutComments (pos - 1) = Some CHR ''.'' then ds
              else if re_match False re_afterIdent after \<noteq> None then ds
              else if (case re_match False re_afterKey after of
                         None \<Rightarrow> False
                       | Some afterKey \<Rightarrow>
                           char_at lineWithoutComments (endPos + length (m_text after afterKey))
                             \<noteq> Some CHR '':'')
                   then ds
              else if varName \<in> set keywords_list \<or> varName \<in> set typeKeywords
                      \<or> list_ex (\<lambda>f. toLowerCase f = toLowerCase varName) fns
                   then ds
              else if varName \<notin> set declaredVars
                   then addDiagnostic (int lineIndex) (int pos) (int lineIndex) (int (pos + length varName))
                          (undefined_variable_message varName) Warning ds
              else ds))"

definition validateSemantics_line ::
  "string list \<Rightarrow> string list \<Rightarrow> nat \<Rightarrow> string \<Rightarrow> Diagnostic list \<Rightarrow> Diagnostic list" where
  "validateSemantics_line fns declaredVars lineIndex ln ds =
     (if is_skipped ln then ds
      else (let lineWithoutStrings = removeStringLiterals ln;
                lineWithoutComments = re_remove_first re_comment lineWithoutStrings
            in foldl (semantic_step fns declaredVars lineIndex lineWithoutComments) ds
                 (all_matches re_identifier lineWithoutComments)))"

definition validateSemantics :: "DocumentAnalyzer \<Rightarrow> DocumentAnalyzer" where
  "validateSemantics a =
     (let declaredVars = map name (symbols a) @ [''Data'']
      in a\<lparr>diagnostics := forEach_line (validateSemantics_line (functionNames a) declaredVars) 0
                              (lines a) (diagnostics a)\<rparr>)"

section \<open>The public methods\<close>

text \<open>Each method takes the analyzer and returns its result with the analyzer as the call
  leaves it.\<close>

definition analyze :: "DocumentAnalyzer \<Rightarrow> Diagnostic list \<times> DocumentAnalyzer" where
  "analyze a =
     (let a' = validateSemantics (extractSymbols (checkSyntax (a\<lparr>diagnostics := [], symbols := []\<rparr>)))
      in (diagnostics a', a'))"

definition getSymbols :: "DocumentAnalyzer \<Rightarrow> SymbolInfo list \<times> DocumentAnalyzer" where
  "getSymbols a =
     (let a' = (if length (symbols a) = 0 then extractSymbols a else a)
      in (symbols a', a'))"


section \<open>The escaping rule, as the specification words it\<close>

text \<open>The number of consecutive backslashes that stand immediately before the index
  \<open>i\<close> of a line.\<close>

definition preceding_backslashes :: "string \<Rightarrow> nat \<Rightarrow> nat" where
  "preceding_backslashes ln i = length (takeWhile (\<lambda>c. c = backslash) (rev (take i ln)))"

definition is_quote :: "char \<Rightarrow> bool" where
  "is_quote c = (c = dquote \<or> c = squote)"

text \<open>\<open>string_state ln n\<close> is the string state after the first \<open>n\<close> code units, read from
  left to right: outside a literal (\<open>None\<close>) or inside one opened by a quote. A quote that
  opens a literal, or that is of the kind that opened the current one, toggles the state
  exactly when an even number of backslashes stands before it; nothing else changes the
  state.\<close>

fun string_state :: "string \<Rightarrow> nat \<Rightarrow> char option" where
  "string_state ln 0 = None"
| "string_state ln (Suc i) =
     (let c = ln ! i; before = string_state ln i in
      if is_quote c \<and> even (preceding_backslashes ln i) \<and> (before = None \<or> before = Some c)
      then (if before = None then Some c else None)
      else before)"

section \<open>Sequences of calls on one analyzer\<close>

datatype call = Analyze | GetSymbols

fun do_call :: "call \<Rightarrow> DocumentAnalyzer \<Rightarrow> DocumentAnalyzer" where
  "do_call Analyze a = snd (analyze a)"
| "do_call GetSymbols a = snd (getSymbols a)"

text \<open>What \<^verbatim>\<open>extractSymbols\<close> appends to an empty symbol list.\<close>

definition extracted :: "string list \<Rightarrow> SymbolInfo list" where
  "extracted lns = syms (forEach_line extractSymbols_line 0 lns \<lparr>syms = [], seenProps = []\<rparr>)"

section \<open>The diagnostics of one line\<close>

text \<open>The diagnostics that the checks of \<^verbatim>\<open>checkSyntax\<close> can append for the line \<open>i\<close>.\<close>

definition unreachable_diag :: "nat \<Rightarrow> string \<Rightarrow> Diagnostic" where
  "unreachable_diag i ln =
     Diagnostic Warning (int i) 0 (int i) (int (length (trim ln))) ''Unreachable code detected'' ''jyro''"

definition unclosed_string_diag :: "nat \<Rightarrow> string \<Rightarrow> Diagnostic" where
  "unclosed_string_diag i ln =
     Diagnostic Error (int i) 0 (int i) (int (length ln)) ''Unclosed string literal'' ''jyro''"

definition unexpected_end_message :: string where
  \<open>unexpected_end_message = ''Unexpected "end" without matching block start''\<close>

definition unexpected_end_diag :: \<open>nat \<Rightarrow> string \<Rightarrow> Diagnostic\<close> where
  \<open>unexpected_end_diag i ln =
     Diagnostic Error (int i) 0 (int i) (int (length (trim ln))) unexpected_end_message ''jyro''\<close>

definition outside_loop_message :: \<open>string \<Rightarrow> string\<close> where
  \<open>outside_loop_message k = [dquote] @ k @ ''" can only be used inside loops''\<close>

definition outside_loop_diag :: "nat \<Rightarrow> string \<Rightarrow> Diagnostic" where
  "outside_loop_diag i ln =
     Diagnostic Error (int i) 0 (int i) (int (length (trim ln)))
       (outside_loop_message (if includes_str (masked ln) ''break'' then ''break'' else ''continue''))
       ''jyro''"

text \<open>What the block tracker reads off a line: the kind of block that the line opens, if
  any (the first of the keywords on the masked line, unless the line starts with
  \<^verbatim>\<open>elseif\<close>), and whether the masked line holds the word \<^verbatim>\<open>end\<close>.\<close>

definition opened_kind :: "string \<Rightarrow> string option" where
  "opened_kind ln =
     (if \<not> re_test True re_elseif (trim ln) \<and> re_test False re_blockStart (masked ln)
      then (case re_match False re_blockStart (masked ln) of
              None \<Rightarrow> None
            | Some m \<Rightarrow> m_group (masked ln) m 1)
      else None)"

definition closes_block :: "string \<Rightarrow> bool" where
  "closes_block ln = re_test False re_end (masked ln)"

text \<open>The other diagnostics of a line: their severities and messages.\<close>

definition later_check_diag :: "bool \<Rightarrow> nat \<Rightarrow> Diagnostic \<Rightarrow> bool" where
  "later_check_diag warn i d \<longleftrightarrow>
     source d = ''jyro'' \<and> startLine d = int i \<and> endLine d = int i \<and>
     ((severity d = Error \<and>
        (message d = ''For loop step must be a positive number''
         \<or> message d = ''Sleep() requires a positive integer millisecond value''
         \<or> (\<exists>t. message d = unknown_type_message t)))
      \<or> (warn \<and> severity d = Information \<and> (\<exists>f. message d = host_function_message f)))"

text \<open>The diagnostics that \<^verbatim>\<open>checkSyntax\<close> appends while it scans the lines.\<close>

definition scan_diag :: "bool \<Rightarrow> Diagnostic \<Rightarrow> bool" where
  "scan_diag warn d \<longleftrightarrow>
     (\<exists>i ln. d = unreachable_diag i ln \<or> d = unclosed_string_diag i ln
             \<or> d = unexpected_end_diag i ln \<or> d = outside_loop_diag i ln)
     \<or> (\<exists>i. later_check_diag warn i d)"

text \<open>An unclosed-block Error: an Error whose message starts as the message of the check
  at the end of \<^verbatim>\<open>checkSyntax\<close> does.\<close>

definition is_unclosed_block :: \<open>Diagnostic \<Rightarrow> bool\<close> where
  \<open>is_unclosed_block d = (severity d = Error \<and> startsWith (message d) ''Unclosed "'')\<close>

definition analyzer_reset :: "DocumentAnalyzer \<Rightarrow> DocumentAnalyzer" where
  "analyzer_reset a = a\<lparr>diagnostics := [], symbols := []\<rparr>"

section \<open>Example documents\<close>

definition newline :: char where "newline = CHR 0x0A"

definition doc_unclosed :: DocumentAnalyzer where
  "doc_unclosed =
     new_DocumentAnalyzer (''while true do'' @ [newline] @ ''  if true then'') ''a.jyro'' default_options"

section \<open>Whole words\<close>

text \<open>\<open>word_at w s i\<close>: the text \<open>w\<close> stands in \<open>s\<close> at the index \<open>i\<close> as a whole word, with no
  word character directly before or after it.\<close>

definition word_at :: "string \<Rightarrow> string \<Rightarrow> nat \<Rightarrow> bool" where
  "word_at w s i =
     (i + length w \<le> length s \<and> take (length w) (drop i s) = w
      \<and> \<not> (0 < i \<and> is_word (s ! (i - 1)))
      \<and> \<not> (i + length w < length s \<and> is_word (s ! (i + length w))))"

definition has_word :: "string \<Rightarrow> string \<Rightarrow> bool" where
  "has_word w s = list_ex (word_at w s) [0..<Suc (length s)]"

section \<open>Well-formed block nestings\<close>

text \<open>\<^verbatim>\<open>checkSyntax\<close> cuts the comment off at the first \<^verbatim>\<open>#\<close> and removes the string literals
  afterwards; \<^verbatim>\<open>validateSemantics\<close> removes the literals first. A line is \<open>comment_safe\<close>
  when both orders give the same text, as they do when no \<^verbatim>\<open>#\<close> stands inside a literal.\<close>

definition comment_safe :: "string \<Rightarrow> bool" where
  "comment_safe ln = (masked ln = re_remove_first re_comment (removeStringLiterals (trim ln)))"

text \<open>The text of a line outside string literals and comments: the literals are emptied
  first, then the comment is cut off.\<close>

definition code_text :: "string \<Rightarrow> string" where
  "code_text ln = re_remove_first re_comment (removeStringLiterals (trim ln))"

definition block_openers :: "string list" where
  "block_openers = [''if'', ''while'', ''for'', ''foreach'', ''switch'']"

text \<open>The block keywords and the \<^verbatim>\<open>end\<close>s of a line, as the specification words them: whole
  words outside string literals and comments, in the order of the text. Blank lines and
  comment lines hold none.\<close>

definition line_block_tokens :: "string \<Rightarrow> string list" where
  "line_block_tokens ln =
     (if is_skipped ln then []
      else concat (map (\<lambda>i. filter (\<lambda>w. word_at w (code_text ln) i) (block_openers @ [''end'']))
                       [0..<Suc (length (code_text ln))]))"

definition block_tokens :: "string list \<Rightarrow> string list" where
  "block_tokens lns = concat (map line_block_tokens lns)"










definition doc_hash_end :: DocumentAnalyzer where
  \<open>doc_hash_end =
     new_DocumentAnalyzer (''if true then'' @ [newline] @ ''true = "#" end'') ''a.jyro'' default_options\<close>

definition doc_while_break :: DocumentAnalyzer where
  "doc_while_break =
     new_DocumentAnalyzer (''while true do'' @ [newline] @ ''break'' @ [newline] @ ''end'')
       ''a.jyro'' default_options"

definition doc_toUpper :: DocumentAnalyzer where
  "doc_toUpper = new_DocumentAnalyzer ''ToUpper(Data.name)'' ''a.jyro'' \<lparr>warnOnHostFunctions = True\<rparr>"

definition doc_fooBar :: DocumentAnalyzer where
  "doc_fooBar = new_DocumentAnalyzer ''FooBar(Data.name)'' ''a.jyro'' \<lparr>warnOnHostFunctions = True\<rparr>"

definition doc_fooBar_quiet :: DocumentAnalyzer where
  "doc_fooBar_quiet = new_DocumentAnalyzer ''FooBar(Data.name)'' ''a.jyro'' \<lparr>warnOnHostFunctions = False\<rparr>"

definition is_information :: "Diagnostic \<Rightarrow> bool" where
  "is_information d = (severity d = Information)"

definition is_unreachable :: "Diagnostic \<Rightarrow> bool" where
  "is_unreachable d = (severity d = Warning \<and> message d = ''Unreachable code detected'')"

definition doc_return_foo :: DocumentAnalyzer where
  "doc_return_foo =
     new_DocumentAnalyzer (''return 1'' @ [newline] @ ''foo()'') ''a.jyro'' default_options"

definition doc_return_end :: DocumentAnalyzer where
  "doc_return_end =
     new_DocumentAnalyzer (''return 1'' @ [newline] @ ''end'') ''a.jyro'' default_options"

definition doc_return_indented :: DocumentAnalyzer where
  "doc_return_indented =
     new_DocumentAnalyzer (''return 1'' @ [newline] @ ''  foo()'') ''a.jyro'' default_options"

section \<open>The Errors of the break check and of the type check\<close>

definition is_break_error :: \<open>Diagnostic \<Rightarrow> bool\<close> where
  \<open>is_break_error d = (severity d = Error \<and> message d = ''"break" can only be used inside loops'')\<close>

definition doc_break :: DocumentAnalyzer where
  "doc_break = new_DocumentAnalyzer ''break'' ''a.jyro'' default_options"

definition doc_hash_break :: DocumentAnalyzer where
  \<open>doc_hash_break = new_DocumentAnalyzer ''s = "a#b" break'' ''a.jyro'' default_options\<close>

definition doc_loop_line :: DocumentAnalyzer where
  "doc_loop_line = new_DocumentAnalyzer ''while true do break end'' ''a.jyro'' default_options"

definition is_unknown_type :: \<open>Diagnostic \<Rightarrow> bool\<close> where
  \<open>is_unknown_type d = (severity d = Error \<and> startsWith (message d) ''Unknown type "'')\<close>

definition doc_var_number :: DocumentAnalyzer where
  "doc_var_number = new_DocumentAnalyzer ''var x: number'' ''a.jyro'' default_options"

definition doc_var_integer :: DocumentAnalyzer where
  "doc_var_integer = new_DocumentAnalyzer ''var x: integer'' ''a.jyro'' default_options"

definition doc_var_a :: DocumentAnalyzer where
  "doc_var_a = new_DocumentAnalyzer ''var x: a'' ''a.jyro'' default_options"

definition doc_var_midline :: DocumentAnalyzer where
  "doc_var_midline =
     new_DocumentAnalyzer ''if true then var x: integer'' ''a.jyro'' default_options"

definition span_length :: "Diagnostic \<Rightarrow> int" where
  "span_length d = endChar d - startChar d"

text \<open>Patterns without capture groups.\<close>

fun no_group :: "regex \<Rightarrow> bool" where
  "no_group (Seq a b) = (no_group a \<and> no_group b)"
| "no_group (Alt a b) = (no_group a \<and> no_group b)"
| "no_group (Star a) = no_group a"
| "no_group (Opt a) = no_group a"
| "no_group (Group n a) = False"
| "no_group r = True"


section \<open>Symbols of property paths\<close>










text \<open>Patterns whose every match consumes at least one code unit.\<close>

fun consuming :: "regex \<Rightarrow> bool" where
  "consuming (Lit w) = (w \<noteq> [])"
| "consuming AnyChar = True"
| "consuming (Cls neg cs) = True"
| "consuming (Seq a b) = (consuming a \<or> consuming b)"
| "consuming (Alt a b) = (consuming a \<and> consuming b)"
| "consuming (Group n a) = consuming a"
| "consuming r = False"

section \<open>Properties of the string-literal scanner\<close>

declare hbs_loop.simps [simp del]
declare rsl_loop.simps [simp del]
declare rsearch.simps [simp del]
declare exec_all.simps [simp del]

lemma backslashCount_preceding:
  "i \<le> length ln \<Longrightarrow> backslashCount ln i = preceding_backslashes ln i"
proof (induction i)
  case 0
  show ?case by (simp add: preceding_backslashes_def)
next
  case (Suc i)
  then have "take (Suc i) ln = take i ln @ [ln ! i]"
    by (simp add: take_Suc_conv_app_nth)
  with Suc show ?case
    by (simp add: preceding_backslashes_def)
qed

lemma hbs_loop_string_state:
  "i \<le> length ln \<Longrightarrow> hbs_loop ln i (string_state ln i) = string_state ln (length ln)"
proof (induction "length ln - i" arbitrary: i)
  case 0
  then have "i = length ln" by simp
  then show ?case by (simp add: hbs_loop.simps)
next
  case (Suc n)
  then have lt: "i < length ln" and le: "Suc i \<le> length ln" and n: "n = length ln - Suc i"
    by simp_all
  have step: "hbs_loop ln (Suc i) (string_state ln (Suc i)) = string_state ln (length ln)"
    using Suc.hyps(1) [OF n le] .
  have bc: "backslashCount ln i = preceding_backslashes ln i"
    using lt by (simp add: backslashCount_preceding)
  have "hbs_loop ln i (string_state ln i) = hbs_loop ln (Suc i) (string_state ln (Suc i))"
    using lt bc
    by (subst hbs_loop.simps [of ln i]) (simp add: Let_def is_quote_def even_iff_mod_2_eq_zero)
  with step show ?case by simp
qed

text \<open>
  Claim C1. For every line, \<open>hasBalancedStrings\<close> computes the left-to-right scan of the
  escaping rule: a quote that opens a literal or matches the quote that opened the current
  one toggles the string state exactly when the number of backslashes immediately before
  it is even, and the result is true exactly when the scan ends outside a literal. The
  line \<^verbatim>\<open>a "b" c\<close> is balanced, \<^verbatim>\<open>a "b c\<close> is not, and the line with two escaped quotes
  \<^verbatim>\<open>a \"b\" c\<close> is balanced.
\<close>

theorem hasBalancedStrings_escaping_rule:
  \<open>(\<forall>ln. hasBalancedStrings ln = (string_state ln (length ln) = None))
   \<and> hasBalancedStrings ''a "b" c''
   \<and> \<not> hasBalancedStrings ''a "b c''
   \<and> hasBalancedStrings (''a '' @ [backslash, dquote] @ ''b'' @ [backslash, dquote] @ '' c'')\<close>
proof -
  have "\<forall>ln. hasBalancedStrings ln = (string_state ln (length ln) = None)"
    using hbs_loop_string_state [of 0] by (simp add: hasBalancedStrings_def)
  moreover have \<open>hasBalancedStrings ''a "b" c''\<close> by code_simp
  moreover have \<open>\<not> hasBalancedStrings ''a "b c''\<close> by code_simp
  moreover have \<open>hasBalancedStrings (''a '' @ [backslash, dquote] @ ''b'' @ [backslash, dquote] @ '' c'')\<close>
    by code_simp
  ultimately show ?thesis by blast
qed

theorem hasBalancedStrings_escaping_rule_witness:
  \<open>hasBalancedStrings ''say "it's"'' = (string_state ''say "it's"'' (length ''say "it's"'') = None)\<close>
  using hasBalancedStrings_escaping_rule by blast

section \<open>Determinism and idempotence\<close>

lemma analyze_reset:
  "(snd (analyze a))\<lparr>diagnostics := [], symbols := []\<rparr> = a\<lparr>diagnostics := [], symbols := []\<rparr>"
  by (simp add: analyze_def validateSemantics_def extractSymbols_def checkSyntax_def Let_def)

lemma analyze_from_reset: "analyze (a\<lparr>diagnostics := [], symbols := []\<rparr>) = analyze a"
  by (simp add: analyze_def)

lemma analyze_uri:
  "fst (analyze (a\<lparr>uri := u\<rparr>)) = fst (analyze a)
   \<and> symbols (snd (analyze (a\<lparr>uri := u\<rparr>))) = symbols (snd (analyze a))"
  by (simp add: analyze_def validateSemantics_def extractSymbols_def checkSyntax_def
      syntax_scan_def Let_def)

text \<open>
  Claim C9. Calling \<open>analyze\<close> twice on one analyzer gives the same diagnostics, in the same
  order, and the same symbols; so do two analyzers built from the same text and options
  (whatever their URIs). The second call reads nothing that the first one left behind.
\<close>

theorem analyze_deterministic:
  "(\<forall>a. fst (analyze (snd (analyze a))) = fst (analyze a)
        \<and> symbols (snd (analyze (snd (analyze a)))) = symbols (snd (analyze a)))
   \<and> (\<forall>t u u' opts.
        fst (analyze (new_DocumentAnalyzer t u opts)) = fst (analyze (new_DocumentAnalyzer t u' opts))
        \<and> symbols (snd (analyze (new_DocumentAnalyzer t u opts)))
            = symbols (snd (analyze (new_DocumentAnalyzer t u' opts))))"
proof -
  have twice: "analyze (snd (analyze a)) = analyze a" for a
    using analyze_from_reset [of "snd (analyze a)"] analyze_from_reset [of a]
    by (simp add: analyze_reset)
  have new_uri: "new_DocumentAnalyzer t u opts = (new_DocumentAnalyzer t u' opts)\<lparr>uri := u\<rparr>"
    for t u u' opts
    by (simp add: new_DocumentAnalyzer_def)
  have both: "fst (analyze (new_DocumentAnalyzer t u opts)) = fst (analyze (new_DocumentAnalyzer t u' opts))
        \<and> symbols (snd (analyze (new_DocumentAnalyzer t u opts)))
            = symbols (snd (analyze (new_DocumentAnalyzer t u' opts)))" for t u u' opts
    by (subst (1 2) new_uri [where u' = u']) (rule analyze_uri)
  show ?thesis
  proof (intro conjI allI)
    fix a
    show "fst (analyze (snd (analyze a))) = fst (analyze a)" by (simp add: twice)
    show "symbols (snd (analyze (snd (analyze a)))) = symbols (snd (analyze a))" by (simp add: twice)
  next
    fix t u u' opts
    show "fst (analyze (new_DocumentAnalyzer t u opts)) = fst (analyze (new_DocumentAnalyzer t u' opts))"
      using both by blast
    show "symbols (snd (analyze (new_DocumentAnalyzer t u opts)))
            = symbols (snd (analyze (new_DocumentAnalyzer t u' opts)))"
      using both by blast
  qed
qed

theorem analyze_deterministic_witness:
  "fst (analyze (snd (analyze (new_DocumentAnalyzer ''break'' ''a.jyro'' default_options))))
     = fst (analyze (new_DocumentAnalyzer ''break'' ''a.jyro'' default_options))
   \<and> fst (analyze (new_DocumentAnalyzer ''break'' ''a.jyro'' default_options))
     = fst (analyze (new_DocumentAnalyzer ''break'' ''b.jyro'' default_options))"
  using analyze_deterministic by blast

lemma extractSymbols_empty: "symbols a = [] \<Longrightarrow> symbols (extractSymbols a) = extracted (lines a)"
  by (simp add: extractSymbols_def extracted_def)

lemma analyze_symbols: "symbols (snd (analyze a)) = extracted (lines a)"
  by (simp add: analyze_def validateSemantics_def extractSymbols_def checkSyntax_def Let_def
      extracted_def)

lemma analyze_lines: "lines (snd (analyze a)) = lines a"
  by (simp add: analyze_def validateSemantics_def extractSymbols_def checkSyntax_def Let_def)

lemma getSymbols_lines: "lines (snd (getSymbols a)) = lines a"
  by (simp add: getSymbols_def extractSymbols_def Let_def)

lemma getSymbols_result:
  "symbols a = [] \<or> symbols a = extracted (lines a) \<Longrightarrow>
   fst (getSymbols a) = extracted (lines a) \<and> symbols (snd (getSymbols a)) = extracted (lines a)"
  by (auto simp: getSymbols_def Let_def extractSymbols_empty)

lemma calls_invariant:
  "symbols a = [] \<or> symbols a = extracted (lines a) \<Longrightarrow>
   lines (fold do_call cs a) = lines a
   \<and> (symbols (fold do_call cs a) = [] \<or> symbols (fold do_call cs a) = extracted (lines a))"
proof (induction cs arbitrary: a)
  case Nil
  then show ?case by simp
next
  case (Cons c cs)
  have "lines (do_call c a) = lines a
        \<and> (symbols (do_call c a) = [] \<or> symbols (do_call c a) = extracted (lines (do_call c a)))"
    using Cons.prems getSymbols_result [of a]
    by (cases c) (simp_all add: analyze_lines analyze_symbols getSymbols_lines)
  with Cons.IH [of "do_call c a"] show ?case by auto
qed

text \<open>
  Claim C10. On an analyzer built from any text, after any sequence of calls of \<open>analyze\<close>
  and \<open>getSymbols\<close>: \<open>getSymbols\<close> returns the symbols that one extraction over the lines
  gives (so it works without a call of \<open>analyze\<close> before it); a second call returns the
  same sequence, and so does a call after an \<open>analyze\<close> in between; and a call that finds
  the symbol list non-empty leaves the analyzer as it is, appending nothing.
\<close>

theorem getSymbols_idempotent:
  "fst (getSymbols (fold do_call cs (new_DocumentAnalyzer t u opts)))
     = extracted (lines (new_DocumentAnalyzer t u opts))
   \<and> fst (getSymbols (snd (getSymbols (fold do_call cs (new_DocumentAnalyzer t u opts)))))
     = fst (getSymbols (fold do_call cs (new_DocumentAnalyzer t u opts)))
   \<and> fst (getSymbols (snd (analyze (snd (getSymbols (fold do_call cs (new_DocumentAnalyzer t u opts)))))))
     = fst (getSymbols (fold do_call cs (new_DocumentAnalyzer t u opts)))
   \<and> (symbols (fold do_call cs (new_DocumentAnalyzer t u opts)) \<noteq> [] \<longrightarrow>
        snd (getSymbols (fold do_call cs (new_DocumentAnalyzer t u opts)))
          = fold do_call cs (new_DocumentAnalyzer t u opts))"
proof -
  let ?init = "new_DocumentAnalyzer t u opts"
  let ?cur = "fold do_call cs ?init"
  have "symbols ?init = []" by (simp add: new_DocumentAnalyzer_def)
  then have inv: "lines ?cur = lines ?init \<and> (symbols ?cur = [] \<or> symbols ?cur = extracted (lines ?init))"
    using calls_invariant [of ?init cs] by simp
  then have g1: "fst (getSymbols ?cur) = extracted (lines ?init)"
    and s1: "symbols (snd (getSymbols ?cur)) = extracted (lines ?init)"
    using getSymbols_result [of ?cur] by simp_all
  have l1: "lines (snd (getSymbols ?cur)) = lines ?init"
    using inv by (simp add: getSymbols_lines)
  have g2: "fst (getSymbols (snd (getSymbols ?cur))) = extracted (lines ?init)"
    using getSymbols_result [of "snd (getSymbols ?cur)"] s1 l1 by simp
  have g3: "fst (getSymbols (snd (analyze (snd (getSymbols ?cur))))) = extracted (lines ?init)"
    using getSymbols_result [of "snd (analyze (snd (getSymbols ?cur)))"] l1
    by (simp add: analyze_symbols analyze_lines)
  have g4: "symbols ?cur \<noteq> [] \<longrightarrow> snd (getSymbols ?cur) = ?cur"
    by (simp add: getSymbols_def Let_def)
  show ?thesis using g1 g2 g3 g4 by simp
qed

theorem getSymbols_idempotent_witness:
  "symbols (fold do_call [GetSymbols] (new_DocumentAnalyzer ''var n'' ''a.jyro'' default_options)) \<noteq> []
   \<and> snd (getSymbols (fold do_call [GetSymbols] (new_DocumentAnalyzer ''var n'' ''a.jyro'' default_options)))
       = fold do_call [GetSymbols] (new_DocumentAnalyzer ''var n'' ''a.jyro'' default_options)
   \<and> fst (getSymbols (snd (getSymbols (fold do_call [GetSymbols]
           (new_DocumentAnalyzer ''var n'' ''a.jyro'' default_options)))))
       = fst (getSymbols (fold do_call [GetSymbols]
           (new_DocumentAnalyzer ''var n'' ''a.jyro'' default_options)))"
proof -
  have ne: "symbols (fold do_call [GetSymbols] (new_DocumentAnalyzer ''var n'' ''a.jyro'' default_options)) \<noteq> []"
    by code_simp
  show ?thesis
    using ne getSymbols_idempotent [of "[GetSymbols]" "''var n''" "''a.jyro''" default_options]
    by blast
qed

section \<open>What each check of a line does\<close>

lemma check_unreachable_diags:
  "diags (check_unreachable i ln st) =
     diags st @ (if afterTerminator st \<and> \<not> re_test False re_blockBoundary (masked ln)
                 then [unreachable_diag i ln] else [])"
  by (simp add: check_unreachable_def Let_def addDiagnostic_def unreachable_diag_def)

lemma check_unreachable_flag:
  "afterTerminator (check_unreachable i ln st) =
     (if re_test False re_blockBoundary (masked ln) then False
      else if re_test False re_terminator (masked ln) then True else afterTerminator st)"
  by (simp add: check_unreachable_def Let_def)

lemma check_unreachable_blocks:
  "blockStack (check_unreachable i ln st) = blockStack st"
  "inLoop (check_unreachable i ln st) = inLoop st"
  by (simp_all add: check_unreachable_def Let_def)

lemma check_strings_diags:
  "diags (check_strings i ln st) =
     diags st @ (if \<not> hasBalancedStrings ln then [unclosed_string_diag i ln] else [])"
  by (simp add: check_strings_def addDiagnostic_def unclosed_string_diag_def)

lemma check_strings_fields:
  "blockStack (check_strings i ln st) = blockStack st"
  "inLoop (check_strings i ln st) = inLoop st"
  "afterTerminator (check_strings i ln st) = afterTerminator st"
  by (simp_all add: check_strings_def)

lemma check_blockStart_fields:
  "diags (check_blockStart i ln st) = diags st"
  "afterTerminator (check_blockStart i ln st) = afterTerminator st"
  by (simp_all add: check_blockStart_def Let_def split: option.splits)

lemma check_end_diags:
  "diags (check_end i ln st) =
     diags st @ (if re_test False re_end (masked ln) \<and> blockStack st = []
                 then [unexpected_end_diag i ln] else [])"
  by (simp add: check_end_def addDiagnostic_def unexpected_end_diag_def unexpected_end_message_def)

lemma check_end_flag: "afterTerminator (check_end i ln st) = afterTerminator st"
  by (simp add: check_end_def)

lemma check_breakContinue_diags:
  "diags (check_breakContinue i ln st) =
     diags st @ (if re_test False re_breakContinue (masked ln) \<and> inLoop st = 0
                 then [outside_loop_diag i ln] else [])"
  by (simp add: check_breakContinue_def addDiagnostic_def outside_loop_diag_def
      outside_loop_message_def)

lemma check_breakContinue_fields:
  "blockStack (check_breakContinue i ln st) = blockStack st"
  "inLoop (check_breakContinue i ln st) = inLoop st"
  "afterTerminator (check_breakContinue i ln st) = afterTerminator st"
  by (simp_all add: check_breakContinue_def)

lemma literal_check_diags:
  "\<exists>new. diags (literal_check r msg i ln st) = diags st @ new
     \<and> (\<forall>d \<in> set new. severity d = Error \<and> message d = msg \<and> source d = ''jyro''
                         \<and> startLine d = int i \<and> endLine d = int i)"
  by (simp add: literal_check_def addDiagnostic_def Let_def split: option.splits)

lemma literal_check_fields:
  "blockStack (literal_check r msg i ln st) = blockStack st"
  "inLoop (literal_check r msg i ln st) = inLoop st"
  "afterTerminator (literal_check r msg i ln st) = afterTerminator st"
  by (simp_all add: literal_check_def Let_def split: option.splits)

lemma check_typeAnnotation_fields:
  "blockStack (check_typeAnnotation i ln st) = blockStack st"
  "inLoop (check_typeAnnotation i ln st) = inLoop st"
  "afterTerminator (check_typeAnnotation i ln st) = afterTerminator st"
  by (simp_all add: check_typeAnnotation_def Let_def split: option.splits)

lemma check_typeAnnotation_diags:
  "\<exists>new. diags (check_typeAnnotation i ln st) = diags st @ new
     \<and> (\<forall>d \<in> set new. severity d = Error \<and> (\<exists>t. message d = unknown_type_message t)
                         \<and> source d = ''jyro'' \<and> startLine d = int i \<and> endLine d = int i)"
  by (auto simp: check_typeAnnotation_def addDiagnostic_def Let_def split: option.splits)

lemma host_function_step_diags:
  "\<exists>new. host_function_step fns i ln ds m = ds @ new
     \<and> (\<forall>d \<in> set new. severity d = Information \<and> (\<exists>f. message d = host_function_message f)
                         \<and> source d = ''jyro'' \<and> startLine d = int i \<and> endLine d = int i)"
  by (auto simp: host_function_step_def addDiagnostic_def Let_def split: option.splits)

lemma host_function_fold_diags:
  "\<exists>new. foldl (host_function_step fns i ln) ds found = ds @ new
     \<and> (\<forall>d \<in> set new. severity d = Information \<and> (\<exists>f. message d = host_function_message f)
                         \<and> source d = ''jyro'' \<and> startLine d = int i \<and> endLine d = int i)"
proof (induction found arbitrary: ds)
  case Nil
  show ?case by simp
next
  case (Cons m found)
  obtain n1 where n1: "host_function_step fns i ln ds m = ds @ n1"
    "\<forall>d \<in> set n1. severity d = Information \<and> (\<exists>f. message d = host_function_message f)
                         \<and> source d = ''jyro'' \<and> startLine d = int i \<and> endLine d = int i"
    using host_function_step_diags by blast
  obtain n2 where n2: "foldl (host_function_step fns i ln) (ds @ n1) found = (ds @ n1) @ n2"
    "\<forall>d \<in> set n2. severity d = Information \<and> (\<exists>f. message d = host_function_message f)
                         \<and> source d = ''jyro'' \<and> startLine d = int i \<and> endLine d = int i"
    using Cons.IH by blast
  have "foldl (host_function_step fns i ln) ds (m # found) = ds @ (n1 @ n2)"
    using n1(1) n2(1) by simp
  moreover have "\<forall>d \<in> set (n1 @ n2). severity d = Information \<and> (\<exists>f. message d = host_function_message f)
                         \<and> source d = ''jyro'' \<and> startLine d = int i \<and> endLine d = int i"
    using n1(2) n2(2) by auto
  ultimately show ?case by blast
qed

lemma check_hostFunctions_diags:
  "\<exists>new. diags (check_hostFunctions warn fns i ln st) = diags st @ new
     \<and> (\<not> warn \<longrightarrow> new = [])
     \<and> (\<forall>d \<in> set new. severity d = Information \<and> (\<exists>f. message d = host_function_message f)
                         \<and> source d = ''jyro'' \<and> startLine d = int i \<and> endLine d = int i)"
proof (cases warn)
  case True
  then show ?thesis
    using host_function_fold_diags [of fns i ln "diags st" "all_matches re_funcCall (masked ln)"]
    by (auto simp: check_hostFunctions_def)
next
  case False
  then show ?thesis by (simp add: check_hostFunctions_def)
qed

lemma check_hostFunctions_fields:
  "blockStack (check_hostFunctions warn fns i ln st) = blockStack st"
  "inLoop (check_hostFunctions warn fns i ln st) = inLoop st"
  "afterTerminator (check_hostFunctions warn fns i ln st) = afterTerminator st"
  by (simp_all add: check_hostFunctions_def)

lemma check_blockStart_stack:
  "blockStack (check_blockStart i ln st) =
     (case opened_kind ln of None \<Rightarrow> blockStack st | Some k \<Rightarrow> blockStack st @ [(k, i)])"
  "inLoop (check_blockStart i ln st) =
     (case opened_kind ln of None \<Rightarrow> inLoop st
      | Some k \<Rightarrow> if is_loop k then inLoop st + 1 else inLoop st)"
  by (simp_all add: check_blockStart_def opened_kind_def Let_def split: option.splits)

lemma check_end_stack:
  "blockStack (check_end i ln st) =
     (if closes_block ln \<and> blockStack st \<noteq> [] then butlast (blockStack st) else blockStack st)"
  "inLoop (check_end i ln st) =
     (if closes_block ln \<and> blockStack st \<noteq> [] \<and> is_loop (fst (last (blockStack st)))
      then inLoop st - 1 else inLoop st)"
  by (simp_all add: check_end_def closes_block_def)

text \<open>The state after the block checks of a line, and the line as a whole.\<close>

lemma checkSyntax_line_skipped: "is_skipped ln \<Longrightarrow> checkSyntax_line warn fns i ln st = st"
  by (simp add: checkSyntax_line_def)

lemma checkSyntax_line_stack:
  assumes "\<not> is_skipped ln"
  shows "blockStack (checkSyntax_line warn fns i ln st) =
           blockStack (check_end i ln (check_blockStart i ln st))"
    and "inLoop (checkSyntax_line warn fns i ln st) =
           inLoop (check_end i ln (check_blockStart i ln st))"
    and "afterTerminator (checkSyntax_line warn fns i ln st) =
           afterTerminator (check_unreachable i ln st)"
  using assms
  by (simp_all add: checkSyntax_line_def check_hostFunctions_fields check_typeAnnotation_fields
      check_sleep_def check_step_def literal_check_fields check_breakContinue_fields
      check_end_stack check_end_flag check_blockStart_stack check_blockStart_fields
      check_strings_fields check_unreachable_blocks split: option.splits)

lemma checkSyntax_line_diags:
  assumes "\<not> is_skipped ln"
  shows "\<exists>rest. diags (checkSyntax_line warn fns i ln st) =
           diags st
           @ (if afterTerminator st \<and> \<not> re_test False re_blockBoundary (masked ln)
              then [unreachable_diag i ln] else [])
           @ (if \<not> hasBalancedStrings ln then [unclosed_string_diag i ln] else [])
           @ (if closes_block ln \<and> blockStack (check_blockStart i ln st) = []
              then [unexpected_end_diag i ln] else [])
           @ (if re_test False re_breakContinue (masked ln)
                 \<and> inLoop (check_end i ln (check_blockStart i ln st)) = 0
              then [outside_loop_diag i ln] else [])
           @ rest
         \<and> (\<forall>d \<in> set rest. later_check_diag warn i d)"
proof -
  let ?s1 = "check_unreachable i ln st"
  let ?s2 = "check_strings i ln ?s1"
  let ?s3 = "check_blockStart i ln ?s2"
  let ?s4 = "check_end i ln ?s3"
  let ?s5 = "check_breakContinue i ln ?s4"
  let ?s6 = "check_step i ln ?s5"
  let ?s7 = "check_sleep i ln ?s6"
  let ?s8 = "check_typeAnnotation i ln ?s7"
  let ?s9 = "check_hostFunctions warn fns i ln ?s8"
  have res: "checkSyntax_line warn fns i ln st = ?s9"
    using assms by (simp add: checkSyntax_line_def)
  have stack3: "blockStack ?s3 = blockStack (check_blockStart i ln st)"
    by (simp add: check_blockStart_stack check_strings_fields check_unreachable_blocks
        split: option.splits)
  have loop4: "inLoop ?s4 = inLoop (check_end i ln (check_blockStart i ln st))"
    by (simp add: check_end_stack check_blockStart_stack check_strings_fields
        check_unreachable_blocks split: option.splits)
  have d5: "diags ?s5 =
           diags st
           @ (if afterTerminator st \<and> \<not> re_test False re_blockBoundary (masked ln)
              then [unreachable_diag i ln] else [])
           @ (if \<not> hasBalancedStrings ln then [unclosed_string_diag i ln] else [])
           @ (if closes_block ln \<and> blockStack (check_blockStart i ln st) = []
              then [unexpected_end_diag i ln] else [])
           @ (if re_test False re_breakContinue (masked ln)
                 \<and> inLoop (check_end i ln (check_blockStart i ln st)) = 0
              then [outside_loop_diag i ln] else [])"
    unfolding check_breakContinue_diags check_end_diags check_blockStart_fields
      check_strings_diags check_unreachable_diags stack3 loop4 closes_block_def
    by simp
  obtain n6 where n6: "diags ?s6 = diags ?s5 @ n6"
    "\<forall>d \<in> set n6. severity d = Error \<and> message d = ''For loop step must be a positive number''
        \<and> source d = ''jyro'' \<and> startLine d = int i \<and> endLine d = int i"
    unfolding check_step_def using literal_check_diags by blast
  obtain n7 where n7: "diags ?s7 = diags ?s6 @ n7"
    "\<forall>d \<in> set n7. severity d = Error
        \<and> message d = ''Sleep() requires a positive integer millisecond value''
        \<and> source d = ''jyro'' \<and> startLine d = int i \<and> endLine d = int i"
    unfolding check_sleep_def using literal_check_diags by blast
  obtain n8 where n8: "diags ?s8 = diags ?s7 @ n8"
    "\<forall>d \<in> set n8. severity d = Error \<and> (\<exists>t. message d = unknown_type_message t)
        \<and> source d = ''jyro'' \<and> startLine d = int i \<and> endLine d = int i"
    using check_typeAnnotation_diags by blast
  obtain n9 where n9: "diags ?s9 = diags ?s8 @ n9" "\<not> warn \<longrightarrow> n9 = []"
    "\<forall>d \<in> set n9. severity d = Information \<and> (\<exists>f. message d = host_function_message f)
        \<and> source d = ''jyro'' \<and> startLine d = int i \<and> endLine d = int i"
    using check_hostFunctions_diags by blast
  have all: "diags ?s9 = diags ?s5 @ (n6 @ n7 @ n8 @ n9)"
    using n6(1) n7(1) n8(1) n9(1) by simp
  have kinds: "\<forall>d \<in> set (n6 @ n7 @ n8 @ n9). later_check_diag warn i d"
    using n6(2) n7(2) n8(2) n9(2,3) by (auto simp: later_check_diag_def)
  show ?thesis
    unfolding res using all kinds d5 by (intro exI [of _ "n6 @ n7 @ n8 @ n9"]) simp
qed

section \<open>The pass over the lines\<close>

lemma forEach_line_append:
  "forEach_line f i (xs @ ys) st = forEach_line f (i + length xs) ys (forEach_line f i xs st)"
  by (induction xs arbitrary: i st) simp_all

lemma checkSyntax_line_scan_diags:
  "\<exists>new. diags (checkSyntax_line warn fns i ln st) = diags st @ new
         \<and> (\<forall>d \<in> set new. scan_diag warn d)"
proof (cases "is_skipped ln")
  case True
  then show ?thesis by (simp add: checkSyntax_line_skipped)
next
  case False
  obtain rest where rest:
    "diags (checkSyntax_line warn fns i ln st) =
           diags st
           @ (if afterTerminator st \<and> \<not> re_test False re_blockBoundary (masked ln)
              then [unreachable_diag i ln] else [])
           @ (if \<not> hasBalancedStrings ln then [unclosed_string_diag i ln] else [])
           @ (if closes_block ln \<and> blockStack (check_blockStart i ln st) = []
              then [unexpected_end_diag i ln] else [])
           @ (if re_test False re_breakContinue (masked ln)
                 \<and> inLoop (check_end i ln (check_blockStart i ln st)) = 0
              then [outside_loop_diag i ln] else [])
           @ rest"
    "\<forall>d \<in> set rest. later_check_diag warn i d"
    using checkSyntax_line_diags [OF False] by blast
  define new where "new =
           (if afterTerminator st \<and> \<not> re_test False re_blockBoundary (masked ln)
              then [unreachable_diag i ln] else [])
           @ (if \<not> hasBalancedStrings ln then [unclosed_string_diag i ln] else [])
           @ (if closes_block ln \<and> blockStack (check_blockStart i ln st) = []
              then [unexpected_end_diag i ln] else [])
           @ (if re_test False re_breakContinue (masked ln)
                 \<and> inLoop (check_end i ln (check_blockStart i ln st)) = 0
              then [outside_loop_diag i ln] else [])
           @ rest"
  have "diags (checkSyntax_line warn fns i ln st) = diags st @ new"
    using rest(1) by (simp add: new_def)
  moreover have "\<forall>d \<in> set new. scan_diag warn d"
    using rest(2) by (auto simp: new_def scan_diag_def)
  ultimately show ?thesis by blast
qed

lemma forEach_checkSyntax_diags:
  "\<exists>new. diags (forEach_line (checkSyntax_line warn fns) i lns st) = diags st @ new
         \<and> (\<forall>d \<in> set new. scan_diag warn d)"
proof (induction lns arbitrary: i st)
  case Nil
  show ?case by simp
next
  case (Cons ln lns)
  obtain n1 where n1: "diags (checkSyntax_line warn fns i ln st) = diags st @ n1"
    "\<forall>d \<in> set n1. scan_diag warn d"
    using checkSyntax_line_scan_diags by blast
  obtain n2 where n2:
    "diags (forEach_line (checkSyntax_line warn fns) (Suc i) lns (checkSyntax_line warn fns i ln st))
       = diags (checkSyntax_line warn fns i ln st) @ n2"
    "\<forall>d \<in> set n2. scan_diag warn d"
    using Cons.IH by blast
  show ?case
    using n1 n2 by (intro exI [of _ "n1 @ n2"]) auto
qed

lemma semantic_step_diags:
  "\<exists>new. semantic_step fns declared i lwc ds m = ds @ new
         \<and> (\<forall>d \<in> set new. severity d = Warning \<and> (\<exists>v. message d = undefined_variable_message v))"
  by (auto simp: semantic_step_def addDiagnostic_def Let_def split: option.splits)

lemma semantic_fold_diags:
  "\<exists>new. foldl (semantic_step fns declared i lwc) ds found = ds @ new
         \<and> (\<forall>d \<in> set new. severity d = Warning \<and> (\<exists>v. message d = undefined_variable_message v))"
proof (induction found arbitrary: ds)
  case Nil
  show ?case by simp
next
  case (Cons m found)
  obtain n1 where n1: "semantic_step fns declared i lwc ds m = ds @ n1"
    "\<forall>d \<in> set n1. severity d = Warning \<and> (\<exists>v. message d = undefined_variable_message v)"
    using semantic_step_diags by blast
  obtain n2 where n2: "foldl (semantic_step fns declared i lwc) (ds @ n1) found = (ds @ n1) @ n2"
    "\<forall>d \<in> set n2. severity d = Warning \<and> (\<exists>v. message d = undefined_variable_message v)"
    using Cons.IH by blast
  show ?case
    using n1 n2 by (intro exI [of _ "n1 @ n2"]) auto
qed

lemma validateSemantics_line_diags:
  "\<exists>new. validateSemantics_line fns declared i ln ds = ds @ new
         \<and> (\<forall>d \<in> set new. severity d = Warning \<and> (\<exists>v. message d = undefined_variable_message v))"
  using semantic_fold_diags by (simp add: validateSemantics_line_def Let_def)

lemma forEach_validateSemantics_diags:
  "\<exists>new. forEach_line (validateSemantics_line fns declared) i lns ds = ds @ new
         \<and> (\<forall>d \<in> set new. severity d = Warning \<and> (\<exists>v. message d = undefined_variable_message v))"
proof (induction lns arbitrary: i ds)
  case Nil
  show ?case by simp
next
  case (Cons ln lns)
  obtain n1 where n1: "validateSemantics_line fns declared i ln ds = ds @ n1"
    "\<forall>d \<in> set n1. severity d = Warning \<and> (\<exists>v. message d = undefined_variable_message v)"
    using validateSemantics_line_diags by blast
  obtain n2 where n2:
    "forEach_line (validateSemantics_line fns declared) (Suc i) lns (ds @ n1) = (ds @ n1) @ n2"
    "\<forall>d \<in> set n2. severity d = Warning \<and> (\<exists>v. message d = undefined_variable_message v)"
    using Cons.IH by blast
  show ?case
    using n1 n2 by (intro exI [of _ "n1 @ n2"]) auto
qed

text \<open>The diagnostics of \<open>analyze\<close>: those of the scan, then the unclosed-block Error if the
  stack is not empty, then the warnings of \<^verbatim>\<open>validateSemantics\<close>.\<close>

lemma analyze_diagnostics:
  "\<exists>sem. fst (analyze a) = check_unclosed (lines a) (syntax_scan (analyzer_reset a)) @ sem
         \<and> (\<forall>d \<in> set sem. severity d = Warning \<and> (\<exists>v. message d = undefined_variable_message v))"
  using forEach_validateSemantics_diags
  by (simp add: analyze_def validateSemantics_def extractSymbols_def checkSyntax_def Let_def
      analyzer_reset_def)

lemma syntax_scan_diags:
  "\<forall>d \<in> set (diags (syntax_scan (analyzer_reset a))).
     scan_diag (warnOnHostFunctions (options a)) d"
  using forEach_checkSyntax_diags
    [of "warnOnHostFunctions (options a)" "functionNames a" 0 "lines a" "syntax_init []"]
  by (auto simp: syntax_scan_def analyzer_reset_def syntax_init_def)

section \<open>The block stack\<close>

lemma checkSyntax_line_stack_lines:
  assumes "\<forall>b \<in> set (blockStack st). snd b < i"
  shows "\<forall>b \<in> set (blockStack (checkSyntax_line warn fns i ln st)). snd b < Suc i"
proof (cases "is_skipped ln")
  case True
  with assms show ?thesis by (auto simp: checkSyntax_line_skipped less_Suc_eq)
next
  case False
  have "set (blockStack (checkSyntax_line warn fns i ln st))
          \<subseteq> set (blockStack st) \<union> {b. snd b = i}"
    using in_set_butlastD [of _ "blockStack st"] in_set_butlastD [of _ "blockStack st @ [(_, i)]"]
    by (auto simp: checkSyntax_line_stack [OF False] check_end_stack check_blockStart_stack
        butlast_append split: option.splits if_splits)
  with assms show ?thesis by (auto simp: less_Suc_eq)
qed

lemma forEach_checkSyntax_stack_lines:
  assumes "\<forall>b \<in> set (blockStack st). snd b < i"
  shows "\<forall>b \<in> set (blockStack (forEach_line (checkSyntax_line warn fns) i lns st)).
           snd b < i + length lns"
  using assms
proof (induction lns arbitrary: i st)
  case Nil
  then show ?case by simp
next
  case (Cons ln lns)
  have "\<forall>b \<in> set (blockStack (checkSyntax_line warn fns i ln st)). snd b < Suc i"
    using checkSyntax_line_stack_lines [OF Cons.prems] .
  from Cons.IH [OF this] show ?case by simp
qed

lemma syntax_scan_stack_lines:
  "\<forall>b \<in> set (blockStack (syntax_scan a)). snd b < length (lines a)"
  using forEach_checkSyntax_stack_lines
    [of "syntax_init (diagnostics a)" 0 "warnOnHostFunctions (options a)" "functionNames a" "lines a"]
  by (simp add: syntax_scan_def syntax_init_def)

lemma scan_diag_not_unclosed_block: "scan_diag warn d \<Longrightarrow> \<not> is_unclosed_block d"
  by (auto simp: scan_diag_def later_check_diag_def is_unclosed_block_def startsWith_def
      unreachable_diag_def unclosed_string_diag_def unexpected_end_diag_def outside_loop_diag_def
      unexpected_end_message_def outside_loop_message_def unknown_type_message_def dquote_def)

lemma is_unclosed_block_message:
  "is_unclosed_block (Diagnostic Error sl sc el ec (unclosed_message k) src)"
  by (simp add: is_unclosed_block_def unclosed_message_def startsWith_def)

text \<open>
  Claim C3. When the scan of the lines ends with a non-empty block stack, the diagnostics of
  \<open>analyze\<close> hold exactly one unclosed-block Error. It is the one for the top (last) entry
  of the stack: its message names the kind of that entry, and its range is the opening
  line of that entry, from column 0 to the length of that line, a line of the document.
\<close>

theorem unclosed_block_reported_once:
  assumes "blockStack (syntax_scan (analyzer_reset a)) \<noteq> []"
  shows "filter is_unclosed_block (fst (analyze a)) =
           [Diagnostic Error
              (int (snd (last (blockStack (syntax_scan (analyzer_reset a)))))) 0
              (int (snd (last (blockStack (syntax_scan (analyzer_reset a))))))
              (int (length (lines a ! snd (last (blockStack (syntax_scan (analyzer_reset a)))))))
              (unclosed_message (fst (last (blockStack (syntax_scan (analyzer_reset a))))))
              ''jyro'']
         \<and> snd (last (blockStack (syntax_scan (analyzer_reset a)))) < length (lines a)"
proof -
  let ?st = "syntax_scan (analyzer_reset a)"
  obtain sem where sem: "fst (analyze a) = check_unclosed (lines a) ?st @ sem"
    "\<forall>d \<in> set sem. severity d = Warning \<and> (\<exists>v. message d = undefined_variable_message v)"
    using analyze_diagnostics by blast
  have f_sem: "filter is_unclosed_block sem = []"
    using sem(2) by (auto simp: filter_empty_conv is_unclosed_block_def)
  have f_scan: "filter is_unclosed_block (diags ?st) = []"
    using syntax_scan_diags [of a] scan_diag_not_unclosed_block
    by (auto simp: filter_empty_conv)
  have "last (blockStack ?st) \<in> set (blockStack ?st)"
    using assms by simp
  then have "snd (last (blockStack ?st)) < length (lines (analyzer_reset a))"
    using syntax_scan_stack_lines [of "analyzer_reset a"] by blast
  then have in_doc: "snd (last (blockStack ?st)) < length (lines a)"
    by (simp add: analyzer_reset_def)
  show ?thesis
    using assms f_sem f_scan in_doc is_unclosed_block_message
    by (simp add: sem(1) check_unclosed_def addDiagnostic_def Let_def)
qed

theorem unclosed_block_reported_once_witness:
  "blockStack (syntax_scan (analyzer_reset doc_unclosed)) \<noteq> []
   \<and> filter is_unclosed_block (fst (analyze doc_unclosed))
       = [Diagnostic Error 1 0 1 14 (unclosed_message ''if'') ''jyro'']"
proof -
  have st: "blockStack (syntax_scan (analyzer_reset doc_unclosed)) = [(''while'', 0), (''if'', 1)]"
    by code_simp
  have ln: "lines doc_unclosed = [''while true do'', ''  if true then'']"
    by code_simp
  show ?thesis
    using unclosed_block_reported_once [of doc_unclosed] by (simp add: st ln)
qed

section \<open>Unexpected ends\<close>



section \<open>Calls of functions outside the library\<close>

lemma scan_diag_quiet: "scan_diag False d \<Longrightarrow> \<not> is_information d"
  by (auto simp: scan_diag_def later_check_diag_def is_information_def unreachable_diag_def
      unclosed_string_diag_def unexpected_end_diag_def outside_loop_diag_def)

lemma check_unclosed_diags:
  "\<exists>new. check_unclosed lns st = diags st @ new \<and> (\<forall>d \<in> set new. severity d = Error)"
  by (simp add: check_unclosed_def addDiagnostic_def Let_def)

text \<open>
  Claim C8. The library registry holds \<^verbatim>\<open>ToUpper\<close> and not \<^verbatim>\<open>FooBar\<close>. With the advisory flag
  on, the document \<^verbatim>\<open>ToUpper(Data.name)\<close> gets no diagnostic at all, so no undefined-variable
  Warning for \<^verbatim>\<open>ToUpper\<close> and no advisory, and the document \<^verbatim>\<open>FooBar(Data.name)\<close> gets exactly
  one Information diagnostic, which names \<^verbatim>\<open>FooBar\<close> and spans it. With the flag off no
  document gets an Information diagnostic, whatever the registry.
\<close>

theorem host_function_advisory:
  "''ToUpper'' \<in> set getAllFunctionNames \<and> ''FooBar'' \<notin> set getAllFunctionNames
   \<and> fst (analyze doc_toUpper) = []
   \<and> fst (analyze doc_fooBar)
       = [Diagnostic Information 0 0 0 6 (host_function_message ''FooBar'') ''jyro'']
   \<and> (\<forall>a. \<not> warnOnHostFunctions (options a) \<longrightarrow> filter is_information (fst (analyze a)) = [])"
proof -
  have reg: "''ToUpper'' \<in> set getAllFunctionNames" "''FooBar'' \<notin> set getAllFunctionNames"
    by code_simp+
  have up: "fst (analyze doc_toUpper) = []"
    by code_simp
  have foo: "fst (analyze doc_fooBar)
       = [Diagnostic Information 0 0 0 6 (host_function_message ''FooBar'') ''jyro'']"
    by code_simp
  have quiet: "filter is_information (fst (analyze a)) = []"
    if off: "\<not> warnOnHostFunctions (options a)" for a
  proof -
    let ?st = "syntax_scan (analyzer_reset a)"
    obtain sem where sem: "fst (analyze a) = check_unclosed (lines a) ?st @ sem"
      "\<forall>d \<in> set sem. severity d = Warning \<and> (\<exists>v. message d = undefined_variable_message v)"
      using analyze_diagnostics by blast
    obtain unc where unc: "check_unclosed (lines a) ?st = diags ?st @ unc"
      "\<forall>d \<in> set unc. severity d = Error"
      using check_unclosed_diags by blast
    have "\<forall>d \<in> set (diags ?st). \<not> is_information d"
      using syntax_scan_diags [of a] off scan_diag_quiet by auto
    then show ?thesis
      using sem(2) unc(2) by (auto simp: sem(1) unc(1) filter_empty_conv is_information_def)
  qed
  show ?thesis
    using reg up foo quiet by blast
qed

theorem host_function_advisory_witness:
  "\<not> warnOnHostFunctions (options doc_fooBar_quiet)
   \<and> filter is_information (fst (analyze doc_fooBar_quiet)) = []"
proof -
  have off: "\<not> warnOnHostFunctions (options doc_fooBar_quiet)"
    by code_simp
  show ?thesis
    using off host_function_advisory by blast
qed

section \<open>Properties of the matcher\<close>

lemma ms_Lit_exact:
  "ms False (Lit w) s st =
     (if fst st + length w \<le> length s \<and> take (length w) (drop (fst st) s) = w
      then [(fst st + length w, snd st)] else [])"
proof -
  have "chr_eq False = (=)"
    by (intro ext) (simp add: chr_eq_def)
  then show ?thesis
    by (auto simp: list_all2_eq [symmetric])
qed

lemma rsearch_anchored:
  assumes "0 < i"
  shows "rsearch ic (Seq Bol r) s i = None"
  using assms
proof (induction "Suc (length s) - i" arbitrary: i)
  case 0
  then show ?case by (simp add: rsearch.simps)
next
  case (Suc n)
  have "rsearch ic (Seq Bol r) s (Suc i) = None"
  proof (cases "Suc i \<le> length s")
    case True
    with Suc show ?thesis by simp
  next
    case False
    then show ?thesis by (simp add: rsearch.simps)
  qed
  with Suc.prems show ?case
    by (subst rsearch.simps) simp
qed

lemma re_test_anchored:
  "re_test ic (Seq Bol r) s = (ms ic (Seq Bol r) s (0, []) \<noteq> [])"
  by (simp add: re_test_def rsearch.simps [of ic "Seq Bol r" s 0] rsearch_anchored
      split: list.splits)

lemma rsearch_finds:
  assumes "ms ic r s (j, []) \<noteq> []" "i \<le> j" "j \<le> length s"
  shows "rsearch ic r s i \<noteq> None"
  using assms
proof (induction "j - i" arbitrary: i)
  case 0
  then have "i = j" by simp
  with 0 show ?case
    by (subst rsearch.simps) (simp split: list.splits)
next
  case (Suc n)
  then have "rsearch ic r s (Suc i) \<noteq> None" by simp
  with Suc.prems show ?case
    by (subst rsearch.simps) (simp split: list.splits)
qed

lemma ms_Seq_nonempty: "ms ic (Seq a b) s st \<noteq> [] \<Longrightarrow> ms ic a s st \<noteq> []"
  by auto

lemma ms_Group_nonempty: "ms ic (Group n a) s st \<noteq> [] \<Longrightarrow> ms ic a s st \<noteq> []"
  by auto

lemma ms_Bol_Seq: "ms ic (Seq Bol r) s (0, c) = ms ic r s (0, c)"
  by simp

lemma alts_Cons: "ws \<noteq> [] \<Longrightarrow> alts (w # ws) = Alt (Lit w) (alts ws)"
  by (simp add: alts_def)

lemma ms_alts_word:
  assumes "ms False (alts ws) s st \<noteq> []" "ws \<noteq> []"
  shows "\<exists>w \<in> set ws. take (length w) (drop (fst st) s) = w"
  using assms
proof (induction ws)
  case Nil
  then show ?case by simp
next
  case (Cons w ws)
  show ?case
  proof (cases "ws = []")
    case True
    with Cons.prems(1) show ?thesis
      by (simp add: alts_def ms_Lit_exact del: ms.simps(1) split: if_splits)
  next
    case False
    with Cons.prems(1) have "ms False (Lit w) s st \<noteq> [] \<or> ms False (alts ws) s st \<noteq> []"
      by (simp add: alts_Cons del: ms.simps(1))
    then show ?thesis
    proof
      assume "ms False (Lit w) s st \<noteq> []"
      then show ?thesis
        by (simp add: ms_Lit_exact del: ms.simps(1) split: if_splits)
    next
      assume "ms False (alts ws) s st \<noteq> []"
      with Cons.IH False show ?thesis by auto
    qed
  qed
qed

lemma anchored_word:
  assumes "re_test False (seqs (Bol # Group n (alts ws) # rs)) s" "ws \<noteq> []"
  shows "\<exists>w \<in> set ws. take (length w) s = w"
proof -
  have "ms False (Seq Bol (Seq (Group n (alts ws)) (seqs rs))) s (0, []) \<noteq> []"
    using assms(1) by (simp add: seqs_def re_test_anchored del: ms.simps)
  then have "ms False (Seq (Group n (alts ws)) (seqs rs)) s (0, []) \<noteq> []"
    by (simp add: ms_Bol_Seq del: ms.simps)
  then have "ms False (Group n (alts ws)) s (0, []) \<noteq> []"
    by (rule ms_Seq_nonempty)
  then have "ms False (alts ws) s (0, []) \<noteq> []"
    by (rule ms_Group_nonempty)
  from ms_alts_word [OF this assms(2)] show ?thesis by simp
qed

lemma terminator_not_boundary:
  assumes "re_test False re_terminator s"
  shows "\<not> re_test False re_blockBoundary s"
proof
  assume b: "re_test False re_blockBoundary s"
  have "\<exists>w \<in> set [''return'', ''fail'']. take (length w) s = w"
    using assms unfolding re_terminator_def by (rule anchored_word) simp
  moreover have "\<exists>w \<in> set [''end'', ''else'', ''elseif'', ''case'', ''default'']. take (length w) s = w"
    using b unfolding re_blockBoundary_def by (rule anchored_word) simp
  ultimately show False
    by (cases s) auto
qed

section \<open>Unreachable code\<close>

lemma forEach_skipped:
  "\<forall>m \<in> set mid. is_skipped m \<Longrightarrow> forEach_line (checkSyntax_line warn fns) i mid st = st"
  by (induction mid arbitrary: i) (simp_all add: checkSyntax_line_skipped)

lemma scan_diag_unreachable:
  "later_check_diag warn i d \<Longrightarrow> \<not> is_unreachable d"
  "is_unreachable (unreachable_diag i ln)"
  "\<not> is_unreachable (unclosed_string_diag i ln)"
  "\<not> is_unreachable (outside_loop_diag i ln)"
  "\<not> is_unreachable (unexpected_end_diag i ln)"
  by (auto simp: later_check_diag_def is_unreachable_def unreachable_diag_def
      unclosed_string_diag_def unexpected_end_diag_def outside_loop_diag_def)

lemma checkSyntax_line_unreachable:
  assumes "\<not> is_skipped ln"
  shows "filter is_unreachable (diags (checkSyntax_line warn fns i ln st)) =
           filter is_unreachable (diags st)
           @ (if afterTerminator st \<and> \<not> re_test False re_blockBoundary (masked ln)
              then [unreachable_diag i ln] else [])"
proof -
  obtain rest where rest:
    "diags (checkSyntax_line warn fns i ln st) =
           diags st
           @ (if afterTerminator st \<and> \<not> re_test False re_blockBoundary (masked ln)
              then [unreachable_diag i ln] else [])
           @ (if \<not> hasBalancedStrings ln then [unclosed_string_diag i ln] else [])
           @ (if closes_block ln \<and> blockStack (check_blockStart i ln st) = []
              then [unexpected_end_diag i ln] else [])
           @ (if re_test False re_breakContinue (masked ln)
                 \<and> inLoop (check_end i ln (check_blockStart i ln st)) = 0
              then [outside_loop_diag i ln] else [])
           @ rest"
    "\<forall>d \<in> set rest. later_check_diag warn i d"
    using checkSyntax_line_diags [OF assms] by blast
  have "filter is_unreachable rest = []"
    using rest(2) scan_diag_unreachable(1) by (auto simp: filter_empty_conv)
  then show ?thesis
    by (simp add: rest(1) scan_diag_unreachable)
qed

text \<open>
  When the unreachable-code Warning is emitted. Let a line that is neither blank nor a comment begin with \<^verbatim>\<open>return\<close> or \<^verbatim>\<open>fail\<close>
  (on its masked text), let only blank and comment lines follow, and then a line \<open>l\<close> that
  is neither. After the first line the after-terminator flag is set, whatever the state
  before. If \<open>l\<close> starts with a block-boundary keyword it gets no unreachable-code Warning
  and the flag is cleared; otherwise it gets exactly one, from column 0 to the length of
  the trimmed line. The document \<^verbatim>\<open>return 1\<close>, \<^verbatim>\<open>foo()\<close> gets the Warning on its second
  line; the document \<^verbatim>\<open>return 1\<close>, \<^verbatim>\<open>end\<close> gets none.
\<close>

lemma unreachable_after_terminator:
  "(\<forall>warn fns i st r mid l.
      \<not> is_skipped r \<and> re_test False re_terminator (masked r)
      \<and> (\<forall>m \<in> set mid. is_skipped m) \<and> \<not> is_skipped l \<longrightarrow>
      afterTerminator (forEach_line (checkSyntax_line warn fns) i (r # mid) st)
      \<and> filter is_unreachable
           (diags (forEach_line (checkSyntax_line warn fns) i (r # mid @ [l]) st))
         = filter is_unreachable (diags (forEach_line (checkSyntax_line warn fns) i (r # mid) st))
           @ (if re_test False re_blockBoundary (masked l) then []
              else [Diagnostic Warning (int (Suc i + length mid)) 0 (int (Suc i + length mid))
                      (int (length (trim l))) ''Unreachable code detected'' ''jyro''])
      \<and> (re_test False re_blockBoundary (masked l) \<longrightarrow>
           \<not> afterTerminator (forEach_line (checkSyntax_line warn fns) i (r # mid @ [l]) st)))
   \<and> fst (analyze doc_return_foo)
       = [Diagnostic Warning 1 0 1 5 ''Unreachable code detected'' ''jyro'']
   \<and> filter is_unreachable (fst (analyze doc_return_end)) = []"
proof -
  have general:
    "afterTerminator (forEach_line (checkSyntax_line warn fns) i (r # mid) st)
      \<and> filter is_unreachable
           (diags (forEach_line (checkSyntax_line warn fns) i (r # mid @ [l]) st))
         = filter is_unreachable (diags (forEach_line (checkSyntax_line warn fns) i (r # mid) st))
           @ (if re_test False re_blockBoundary (masked l) then []
              else [Diagnostic Warning (int (Suc i + length mid)) 0 (int (Suc i + length mid))
                      (int (length (trim l))) ''Unreachable code detected'' ''jyro''])
      \<and> (re_test False re_blockBoundary (masked l) \<longrightarrow>
           \<not> afterTerminator (forEach_line (checkSyntax_line warn fns) i (r # mid @ [l]) st))"
    if h: "\<not> is_skipped r" "re_test False re_terminator (masked r)"
      "\<forall>m \<in> set mid. is_skipped m" "\<not> is_skipped l"
    for warn fns i st r mid l
  proof -
    let ?f = "checkSyntax_line warn fns"
    let ?s1 = "forEach_line ?f i (r # mid) st"
    have flag: "afterTerminator ?s1"
      using h(2) terminator_not_boundary [OF h(2)]
      by (simp add: forEach_skipped [OF h(3)] checkSyntax_line_stack(3) [OF h(1)]
          check_unreachable_flag)
    have s2: "forEach_line ?f i (r # mid @ [l]) st = ?f (Suc i + length mid) l ?s1"
      using forEach_line_append [of ?f i "r # mid" "[l]" st] by simp
    have warned: "filter is_unreachable (diags (?f (Suc i + length mid) l ?s1)) =
        filter is_unreachable (diags ?s1)
        @ (if re_test False re_blockBoundary (masked l) then []
           else [unreachable_diag (Suc i + length mid) l])"
      using flag by (simp add: checkSyntax_line_unreachable [OF h(4)])
    have cleared: "re_test False re_blockBoundary (masked l) \<longrightarrow>
        \<not> afterTerminator (?f (Suc i + length mid) l ?s1)"
      by (simp add: checkSyntax_line_stack(3) [OF h(4)] check_unreachable_flag)
    show ?thesis
      using flag warned cleared unfolding s2 unreachable_diag_def by simp
  qed
  have foo: "fst (analyze doc_return_foo)
       = [Diagnostic Warning 1 0 1 5 ''Unreachable code detected'' ''jyro'']"
    by code_simp
  have none: "filter is_unreachable (fst (analyze doc_return_end)) = []"
    by code_simp
  show ?thesis
    using general foo none by blast
qed

lemma unreachable_after_terminator_example:
  "\<not> is_skipped ''return 1'' \<and> re_test False re_terminator (masked ''return 1'')
   \<and> (\<forall>m \<in> set [''  '', ''# done'']. is_skipped m) \<and> \<not> is_skipped ''  foo()''
   \<and> afterTerminator (forEach_line (checkSyntax_line True getAllFunctionNames) 0
         (''return 1'' # [''  '', ''# done'']) (syntax_init []))
   \<and> filter is_unreachable
        (diags (forEach_line (checkSyntax_line True getAllFunctionNames) 0
           (''return 1'' # [''  '', ''# done''] @ [''  foo()'']) (syntax_init [])))
      = filter is_unreachable
          (diags (forEach_line (checkSyntax_line True getAllFunctionNames) 0
             (''return 1'' # [''  '', ''# done'']) (syntax_init [])))
        @ (if re_test False re_blockBoundary (masked ''  foo()'') then []
           else [Diagnostic Warning (int (Suc 0 + length [''  '', ''# done''])) 0
                   (int (Suc 0 + length [''  '', ''# done'']))
                   (int (length (trim ''  foo()''))) ''Unreachable code detected'' ''jyro''])"
proof -
  have h: "\<not> is_skipped ''return 1''" "re_test False re_terminator (masked ''return 1'')"
    "\<forall>m \<in> set [''  '', ''# done'']. is_skipped m" "\<not> is_skipped ''  foo()''"
    by code_simp+
  show ?thesis
    using h unreachable_after_terminator by blast
qed


text \<open>
  Claim C5. After a line beginning with \<^verbatim>\<open>return\<close> or \<^verbatim>\<open>fail\<close>, the next line that is neither
  blank nor a comment gets an unreachable-code Warning covering the whole trimmed line,
  unless it starts with a block-boundary keyword. The Warning is emitted as the claim
  says (\<open>unreachable_after_terminator\<close>), but its range is column 0 to the length of the
  trimmed line, in the columns of the untrimmed line: on the indented second line of
  \<^verbatim>\<open>return 1\<close>, \<^verbatim>\<open>  foo()\<close> the trimmed text \<^verbatim>\<open>foo()\<close> stands in columns 2 to 7 and the
  Warning covers columns 0 to 5, the text \<^verbatim>\<open>  foo\<close>.
\<close>

theorem unreachable_range_indented:
  "fst (analyze doc_return_indented)
     = [Diagnostic Warning 1 0 1 5 ''Unreachable code detected'' ''jyro'']
   \<and> lines doc_return_indented ! 1 = ''  foo()''
   \<and> trim (lines doc_return_indented ! 1) = ''foo()''
   \<and> indexOf (lines doc_return_indented ! 1) (trim (lines doc_return_indented ! 1)) 0 = 2
   \<and> substring (lines doc_return_indented ! 1) 0 5 = ''  foo''"
  by code_simp

section \<open>break outside a loop\<close>

lemma ms_Seq_intro:
  "st' \<in> set (ms ic a s st) \<Longrightarrow> ms ic b s st' \<noteq> [] \<Longrightarrow> ms ic (Seq a b) s st \<noteq> []"
  by auto

lemma ms_alts_member:
  assumes "w \<in> set ws" "fst st + length w \<le> length s" "take (length w) (drop (fst st) s) = w"
  shows "(fst st + length w, snd st) \<in> set (ms False (alts ws) s st)"
  using assms(1)
proof (induction ws)
  case Nil
  then show ?case by simp
next
  case (Cons v ws)
  show ?case
  proof (cases "ws = []")
    case True
    with Cons.prems assms(2,3) show ?thesis
      by (simp add: alts_def ms_Lit_exact del: ms.simps(1))
  next
    case False
    show ?thesis
    proof (cases "w = v")
      case True
      with assms(2,3) show ?thesis
        by (simp add: alts_Cons [OF False] ms_Lit_exact del: ms.simps(1))
    next
      case neq: False
      with Cons.prems have "w \<in> set ws" by simp
      from Cons.IH [OF this] show ?thesis
        by (simp add: alts_Cons [OF False] del: ms.simps(1))
    qed
  qed
qed

lemma take_drop_nth:
  assumes "take (length w) (drop i s) = w" "i + length w \<le> length s" "k < length w"
  shows "s ! (i + k) = w ! k"
proof -
  have "w ! k = take (length w) (drop i s) ! k" using assms(1) by simp
  also have "\<dots> = s ! (i + k)" using assms(2,3) by simp
  finally show ?thesis by simp
qed

lemma word_at_matches:
  assumes "word_at w s i" "w \<in> set ws" "w \<noteq> []" "is_word (hd w)" "is_word (last w)"
  shows "ms False (seqs [WordB, Group n (alts ws), WordB]) s (i, []) \<noteq> []"
proof -
  have len: "i + length w \<le> length s" and tk: "take (length w) (drop i s) = w"
    and before: "\<not> (0 < i \<and> is_word (s ! (i - 1)))"
    and after: "\<not> (i + length w < length s \<and> is_word (s ! (i + length w)))"
    using assms(1) by (simp_all add: word_at_def)
  have pos: "0 < length w" using assms(3) by simp
  have inside: "i < length s" "i + length w - 1 < length s" "0 < i + length w"
    using len pos by arith+
  have first: "s ! i = hd w"
    using take_drop_nth [OF tk len pos] by (simp add: hd_conv_nth [OF assms(3)])
  have lst: "s ! (i + length w - 1) = last w"
    using take_drop_nth [OF tk len, of "length w - 1"] pos
    by (simp add: last_conv_nth [OF assms(3)])
  have b1: "ms False WordB s (i, []) = [(i, [])]"
    using before first assms(4) inside by auto
  have g: "(i + length w, [(n, i, i + length w)]) \<in> set (ms False (Group n (alts ws)) s (i, []))"
    using ms_alts_member [OF assms(2), of "(i, [])" s] len tk by force
  have b2: "ms False (Seq WordB (Lit [])) s (i + length w, [(n, i, i + length w)]) \<noteq> []"
    using after lst assms(5) len inside by auto
  have "ms False (Seq (Group n (alts ws)) (Seq WordB (Lit []))) s (i, []) \<noteq> []"
    using ms_Seq_intro [OF g b2] .
  then show ?thesis
    using b1 by (simp add: seqs_def del: ms.simps(1,6,11))
qed

lemma has_word_test:
  assumes "has_word w s" "w \<in> set ws" "w \<noteq> []" "is_word (hd w)" "is_word (last w)"
  shows "re_test False (seqs [WordB, Group n (alts ws), WordB]) s"
proof -
  from assms(1) obtain i where i: "word_at w s i" "i \<le> length s"
    by (auto simp: has_word_def list_ex_iff)
  show ?thesis
    unfolding re_test_def
    using rsearch_finds [OF word_at_matches [OF i(1) assms(2-5)], of 0] i(2) by simp
qed

lemma indexOf_from_found:
  assumes "i + length w \<le> length s" "take (length w) (drop i s) = w"
  shows "indexOf_from s w k \<noteq> -1"
  using assms
proof (induction s arbitrary: i k)
  case Nil
  then show ?case by simp
next
  case (Cons c s)
  show ?case
  proof (cases "take (length w) (c # s) = w")
    case True
    then show ?thesis by simp
  next
    case False
    with Cons.prems obtain j where j: "i = Suc j" by (cases i) auto
    with Cons.prems have "j + length w \<le> length s" "take (length w) (drop j s) = w" by simp_all
    from Cons.IH [OF this] False show ?thesis by simp
  qed
qed

lemma has_word_includes:
  assumes "has_word w s"
  shows "includes_str s w"
proof -
  from assms obtain i where "word_at w s i"
    by (auto simp: has_word_def list_ex_iff)
  then have "i + length w \<le> length s" "take (length w) (drop i s) = w"
    by (simp_all add: word_at_def)
  from indexOf_from_found [OF this, of 0] show ?thesis
    by (simp add: includes_str_def indexOf_def)
qed


lemma scan_diag_break:
  "later_check_diag warn i d \<Longrightarrow> \<not> is_break_error d"
  "\<not> is_break_error (unreachable_diag i ln)"
  "\<not> is_break_error (unclosed_string_diag i ln)"
  "\<not> is_break_error (unexpected_end_diag i ln)"
  by (auto simp: later_check_diag_def is_break_error_def unreachable_diag_def
      unclosed_string_diag_def unexpected_end_diag_def unexpected_end_message_def
      unknown_type_message_def)

lemma outside_loop_diag_break:
  "includes_str (masked ln) ''break'' \<Longrightarrow> is_break_error (outside_loop_diag i ln)"
  "includes_str (masked ln) ''break'' \<Longrightarrow>
     message (outside_loop_diag i ln) = [dquote] @ ''break'' @ [dquote] @ '' can only be used inside loops''"
  by (simp_all add: is_break_error_def outside_loop_diag_def outside_loop_message_def dquote_def)

lemma checkSyntax_line_break:
  assumes "\<not> is_skipped ln" "has_word ''break'' (masked ln)"
  shows "filter is_break_error (diags (checkSyntax_line warn fns i ln st)) =
           filter is_break_error (diags st)
           @ (if inLoop (checkSyntax_line warn fns i ln st) = 0 then [outside_loop_diag i ln] else [])"
proof -
  obtain rest where rest:
    "diags (checkSyntax_line warn fns i ln st) =
           diags st
           @ (if afterTerminator st \<and> \<not> re_test False re_blockBoundary (masked ln)
              then [unreachable_diag i ln] else [])
           @ (if \<not> hasBalancedStrings ln then [unclosed_string_diag i ln] else [])
           @ (if closes_block ln \<and> blockStack (check_blockStart i ln st) = []
              then [unexpected_end_diag i ln] else [])
           @ (if re_test False re_breakContinue (masked ln)
                 \<and> inLoop (check_end i ln (check_blockStart i ln st)) = 0
              then [outside_loop_diag i ln] else [])
           @ rest"
    "\<forall>d \<in> set rest. later_check_diag warn i d"
    using checkSyntax_line_diags [OF assms(1)] by blast
  have none: "filter is_break_error rest = []"
    using rest(2) scan_diag_break(1) by (auto simp: filter_empty_conv)
  have test: "re_test False re_breakContinue (masked ln)"
    unfolding re_breakContinue_def
    by (rule has_word_test [OF assms(2)]) (simp_all add: is_word_def is_lower_def lower_letters_def)
  have brk: "is_break_error (outside_loop_diag i ln)"
    using has_word_includes [OF assms(2)] by (rule outside_loop_diag_break)
  show ?thesis
    using none test brk
    by (simp add: rest(1) scan_diag_break checkSyntax_line_stack(2) [OF assms(1)])
qed

text \<open>
  When the break check fires. A line that is neither blank nor a comment and whose masked
  text holds \<^verbatim>\<open>break\<close> as a whole word gets exactly one break-outside-loop Error (the Error with
  the message \<^verbatim>\<open>"break" can only be used inside loops\<close>) when the loop counter is 0 after the
  block keywords of the line itself, and none when the counter is not 0. The document
  \<^verbatim>\<open>break\<close> gets that Error and nothing else; the line \<^verbatim>\<open>break\<close> between \<^verbatim>\<open>while true do\<close> and
  \<^verbatim>\<open>end\<close> gets no diagnostic.
\<close>

lemma break_error_when_seen:
  \<open>(\<forall>warn fns i st ln.
      \<not> is_skipped ln \<and> has_word ''break'' (masked ln) \<longrightarrow>
      map message (filter is_break_error (diags (checkSyntax_line warn fns i ln st)))
        = map message (filter is_break_error (diags st))
          @ (if inLoop (checkSyntax_line warn fns i ln st) = 0
             then [''"break" can only be used inside loops''] else []))
   \<and> fst (analyze doc_break)
       = [Diagnostic Error 0 0 0 5 ''"break" can only be used inside loops'' ''jyro'']
   \<and> fst (analyze doc_while_break) = []\<close>
proof -
  have general:
    \<open>map message (filter is_break_error (diags (checkSyntax_line warn fns i ln st)))
        = map message (filter is_break_error (diags st))
          @ (if inLoop (checkSyntax_line warn fns i ln st) = 0
             then [''"break" can only be used inside loops''] else [])\<close>
    if h: "\<not> is_skipped ln" "has_word ''break'' (masked ln)" for warn fns i st ln
    using outside_loop_diag_break(2) [OF has_word_includes [OF h(2)], of i]
    by (simp add: checkSyntax_line_break [OF h] dquote_def)
  have one: \<open>fst (analyze doc_break)
       = [Diagnostic Error 0 0 0 5 ''"break" can only be used inside loops'' ''jyro'']\<close>
    by code_simp
  have inside: "fst (analyze doc_while_break) = []"
    by code_simp
  show ?thesis
    using general one inside by blast
qed

lemma break_error_when_seen_example:
  \<open>\<not> is_skipped ''  break  # leave''
   \<and> has_word ''break'' (masked ''  break  # leave'')
   \<and> inLoop (checkSyntax_line True getAllFunctionNames 3 ''  break  # leave'' (syntax_init [])) = 0
   \<and> map message (filter is_break_error
         (diags (checkSyntax_line True getAllFunctionNames 3 ''  break  # leave'' (syntax_init []))))
      = [''"break" can only be used inside loops'']\<close>
proof -
  have h: "\<not> is_skipped ''  break  # leave''"
    "has_word ''break'' (masked ''  break  # leave'')"
    "inLoop (checkSyntax_line True getAllFunctionNames 3 ''  break  # leave'' (syntax_init [])) = 0"
    "diags (syntax_init []) = []"
    by code_simp+
  show ?thesis
    using h break_error_when_seen [THEN conjunct1, rule_format,
        of "''  break  # leave''" True getAllFunctionNames 3 "syntax_init []"]
    by simp
qed

section \<open>Type annotations\<close>

lemma check_typeAnnotation_exact:
  assumes "re_test False re_varStart (trim ln)" "re_match False re_typeAnnot (trim ln) = Some m"
    "m_group (trim ln) m 1 = Some t"
  shows "diags (check_typeAnnotation i ln st) =
           diags st
           @ (if t \<in> set typeKeywords then []
              else [Diagnostic Error (int i) (indexOf ln t 0) (int i) (indexOf ln t 0 + int (length t))
                      (unknown_type_message t) ''jyro''])"
  using assms by (simp add: check_typeAnnotation_def addDiagnostic_def Let_def)

lemma is_unknown_type_others:
  "\<not> is_unknown_type (unreachable_diag i ln)"
  "\<not> is_unknown_type (unclosed_string_diag i ln)"
  "\<not> is_unknown_type (unexpected_end_diag i ln)"
  "\<not> is_unknown_type (outside_loop_diag i ln)"
  "is_unknown_type (Diagnostic Error sl sc el ec (unknown_type_message t) src)"
  by (simp_all add: is_unknown_type_def startsWith_def unreachable_diag_def
      unclosed_string_diag_def unexpected_end_diag_def unexpected_end_message_def
      outside_loop_diag_def outside_loop_message_def unknown_type_message_def dquote_def)

lemma checkSyntax_line_unknown_type:
  assumes "\<not> is_skipped ln" "re_test False re_varStart (trim ln)"
    "re_match False re_typeAnnot (trim ln) = Some m" "m_group (trim ln) m 1 = Some t"
  shows "filter is_unknown_type (diags (checkSyntax_line warn fns i ln st)) =
           filter is_unknown_type (diags st)
           @ (if t \<in> set typeKeywords then []
              else [Diagnostic Error (int i) (indexOf ln t 0) (int i) (indexOf ln t 0 + int (length t))
                      (unknown_type_message t) ''jyro''])"
proof -
  let ?s1 = "check_unreachable i ln st"
  let ?s2 = "check_strings i ln ?s1"
  let ?s3 = "check_blockStart i ln ?s2"
  let ?s4 = "check_end i ln ?s3"
  let ?s5 = "check_breakContinue i ln ?s4"
  let ?s6 = "check_step i ln ?s5"
  let ?s7 = "check_sleep i ln ?s6"
  let ?s8 = "check_typeAnnotation i ln ?s7"
  let ?s9 = "check_hostFunctions warn fns i ln ?s8"
  have res: "checkSyntax_line warn fns i ln st = ?s9"
    using assms(1) by (simp add: checkSyntax_line_def)
  have d5: "filter is_unknown_type (diags ?s5) = filter is_unknown_type (diags st)"
    unfolding check_breakContinue_diags check_end_diags check_blockStart_fields
      check_strings_diags check_unreachable_diags
    by (simp add: is_unknown_type_others)
  obtain n6 where n6: "diags ?s6 = diags ?s5 @ n6"
    "\<forall>d \<in> set n6. severity d = Error \<and> message d = ''For loop step must be a positive number''
        \<and> source d = ''jyro'' \<and> startLine d = int i \<and> endLine d = int i"
    unfolding check_step_def using literal_check_diags by blast
  obtain n7 where n7: "diags ?s7 = diags ?s6 @ n7"
    "\<forall>d \<in> set n7. severity d = Error
        \<and> message d = ''Sleep() requires a positive integer millisecond value''
        \<and> source d = ''jyro'' \<and> startLine d = int i \<and> endLine d = int i"
    unfolding check_sleep_def using literal_check_diags by blast
  obtain n9 where n9: "diags ?s9 = diags ?s8 @ n9"
    "\<forall>d \<in> set n9. severity d = Information \<and> (\<exists>f. message d = host_function_message f)
        \<and> source d = ''jyro'' \<and> startLine d = int i \<and> endLine d = int i"
    using check_hostFunctions_diags by blast
  have f6: "filter is_unknown_type n6 = []" and f7: "filter is_unknown_type n7 = []"
    and f9: "filter is_unknown_type n9 = []"
    using n6(2) n7(2) n9(2)
    by (auto simp: filter_empty_conv is_unknown_type_def startsWith_def)
  have d7: "filter is_unknown_type (diags ?s7) = filter is_unknown_type (diags st)"
    using d5 f6 f7 by (simp add: n6(1) n7(1))
  show ?thesis
    unfolding res n9(1) check_typeAnnotation_exact [OF assms(2-4)]
    using d7 f9 by (simp add: is_unknown_type_others)
qed


text \<open>
  Claim C7, as amended. For every line that is neither blank nor a comment and whose
  trimmed text starts with a declaration of the shape \<^verbatim>\<open>var <name> : <type>\<close> (it matches
  \<^verbatim>\<open>/^\s*var\s+/\<close> and \<^verbatim>\<open>/^var\s+\w+\s*:\s*(\w+)/\<close>, the group being the type), the line gets a
  type-annotation Error exactly when the type is not one of number, string, boolean,
  object, array; the Error names the type and its span has the length of the type token.
  A declaration that does not start the line is not checked, and nothing is said about
  where the span starts. The line \<^verbatim>\<open>var x: number\<close> gets no diagnostic; the line
  \<^verbatim>\<open>var x: integer\<close> gets exactly one Error, which names \<^verbatim>\<open>integer\<close> and spans the columns 7
  to 14, where \<^verbatim>\<open>integer\<close> stands (and a Warning for the undefined variable \<^verbatim>\<open>integer\<close>).
\<close>

theorem type_annotation_checked:
  "(\<forall>warn fns i st ln m t.
      \<not> is_skipped ln \<and> re_test False re_varStart (trim ln)
      \<and> re_match False re_typeAnnot (trim ln) = Some m \<and> m_group (trim ln) m 1 = Some t \<longrightarrow>
      map (\<lambda>d. (message d, span_length d))
          (filter is_unknown_type (diags (checkSyntax_line warn fns i ln st)))
        = map (\<lambda>d. (message d, span_length d)) (filter is_unknown_type (diags st))
          @ (if t \<in> set typeKeywords then [] else [(unknown_type_message t, int (length t))]))
   \<and> fst (analyze doc_var_number) = []
   \<and> fst (analyze doc_var_integer)
       = [Diagnostic Error 0 7 0 14 (unknown_type_message ''integer'') ''jyro'',
          Diagnostic Warning 0 7 0 14 (undefined_variable_message ''integer'') ''jyro'']
   \<and> substring ''var x: integer'' 7 14 = ''integer''"
proof -
  have general:
    "map (\<lambda>d. (message d, span_length d))
          (filter is_unknown_type (diags (checkSyntax_line warn fns i ln st)))
        = map (\<lambda>d. (message d, span_length d)) (filter is_unknown_type (diags st))
          @ (if t \<in> set typeKeywords then [] else [(unknown_type_message t, int (length t))])"
    if h: "\<not> is_skipped ln" "re_test False re_varStart (trim ln)"
      "re_match False re_typeAnnot (trim ln) = Some m" "m_group (trim ln) m 1 = Some t"
    for warn fns i st ln m t
    by (simp add: checkSyntax_line_unknown_type [OF h] span_length_def)
  have ok: "fst (analyze doc_var_number) = []"
    by code_simp
  have bad: "fst (analyze doc_var_integer)
       = [Diagnostic Error 0 7 0 14 (unknown_type_message ''integer'') ''jyro'',
          Diagnostic Warning 0 7 0 14 (undefined_variable_message ''integer'') ''jyro'']"
    by code_simp
  have span: "substring ''var x: integer'' 7 14 = ''integer''"
    by code_simp
  show ?thesis
    using general ok bad span by blast
qed

theorem type_annotation_checked_witness:
  "\<not> is_skipped ''var n : float'' \<and> re_test False re_varStart (trim ''var n : float'')
   \<and> re_match False re_typeAnnot (trim ''var n : float'') = Some (0, 13, [(1, 8, 13)])
   \<and> m_group (trim ''var n : float'') (0, 13, [(1, 8, 13)]) 1 = Some ''float''
   \<and> map (\<lambda>d. (message d, span_length d))
          (filter is_unknown_type
             (diags (checkSyntax_line True getAllFunctionNames 0 ''var n : float'' (syntax_init []))))
      = [(unknown_type_message ''float'', 5)]"
proof -
  have h: "\<not> is_skipped ''var n : float''" "re_test False re_varStart (trim ''var n : float'')"
    "re_match False re_typeAnnot (trim ''var n : float'') = Some (0, 13, [(1, 8, 13)])"
    "m_group (trim ''var n : float'') (0, 13, [(1, 8, 13)]) 1 = Some ''float''"
    "''float'' \<notin> set typeKeywords" "diags (syntax_init []) = []"
    by code_simp+
  show ?thesis
    using h type_annotation_checked [THEN conjunct1, rule_format,
        of "''var n : float''" "(0, 13, [(1, 8, 13)])" "''float''" True getAllFunctionNames 0
        "syntax_init []"]
    by simp
qed

text \<open>The claim as stated fails twice. On \<^verbatim>\<open>var x: a\<close> the type token stands in the columns
  7 to 8, and the Error spans the columns 1 to 2, the first \<^verbatim>\<open>a\<close> of the line, in \<^verbatim>\<open>var\<close>.
  On \<^verbatim>\<open>if true then var x: integer\<close> the declaration is found by the symbol extraction,
  with its type \<^verbatim>\<open>integer\<close>, and gets no type-annotation Error.\<close>

theorem type_annotation_counterexample:
  "re_match False re_typeAnnot ''var x: a'' = Some (0, 8, [(1, 7, 8)])
   \<and> filter is_unknown_type (fst (analyze doc_var_a))
       = [Diagnostic Error 0 1 0 2 (unknown_type_message ''a'') ''jyro'']
   \<and> fst (getSymbols doc_var_midline) = [SymbolInfo ''x'' (Some ''integer'') 0 17]
   \<and> filter is_unknown_type (fst (analyze doc_var_midline)) = []"
  by code_simp

section \<open>Captures of the matcher\<close>

declare ms.simps(9) [simp del]

lemma ms_Star_unfold:
  "st' \<in> set (ms ic (Star a) s st) \<longleftrightarrow>
     st' = st \<or> (\<exists>x \<in> set (ms ic a s st).
                   fst st < fst x \<and> fst x \<le> length s \<and> st' \<in> set (ms ic (Star a) s x))"
proof -
  have "set (ms ic (Star a) s st) =
          (\<Union>x \<in> set (ms ic a s st).
             if fst st < fst x \<and> fst x \<le> length s then set (ms ic (Star a) s x) else {}) \<union> {st}"
    by (subst ms.simps(9)) (simp add: if_distrib [of set] cong: if_cong)
  then show ?thesis
    by (auto split: if_splits)
qed

lemma ms_no_group:
  "no_group r \<Longrightarrow> st' \<in> set (ms ic r s st) \<Longrightarrow> snd st' = snd st"
proof (induction ic r s st arbitrary: st' rule: ms.induct)
  case (7 ic a b s st)
  from "7.prems" obtain x where x: "x \<in> set (ms ic a s st)" "st' \<in> set (ms ic b s x)"
    by auto
  from "7.prems"(1) have na: "no_group a" and nb: "no_group b" by simp_all
  have "snd x = snd st" using "7.IH"(1) [OF na x(1)] .
  moreover have "snd st' = snd x" using "7.IH"(2) [OF x(1) nb x(2)] .
  ultimately show ?case by simp
next
  case (9 ic a s st)
  from "9.prems"(1) have na: "no_group a" by simp
  show ?case
  proof (cases "st' = st")
    case True
    then show ?thesis by simp
  next
    case False
    with "9.prems"(2) obtain x where x: "x \<in> set (ms ic a s st)"
      "fst st < fst x \<and> fst x \<le> length s" "st' \<in> set (ms ic (Star a) s x)"
      using ms_Star_unfold [of st' ic a s st] by blast
    have "snd x = snd st" using "9.IH"(1) [OF na x(1)] .
    moreover have "snd st' = snd x" using "9.IH"(2) [OF x(1) x(2) "9.prems"(1) x(3)] .
    ultimately show ?thesis by simp
  qed
qed (auto split: if_splits)

lemma rsearch_result:
  "rsearch ic r s k = Some m \<Longrightarrow> snd m \<in> set (ms ic r s (fst m, []))"
proof (induction "Suc (length s) - k" arbitrary: k)
  case 0
  then show ?case by (simp add: rsearch.simps)
next
  case (Suc n)
  show ?case
  proof (cases "ms ic r s (k, [])")
    case Nil
    with Suc.prems have nxt: "rsearch ic r s (Suc k) = Some m" and "k \<le> length s"
      by (simp_all add: rsearch.simps [of ic r s k] split: if_splits)
    have "n = Suc (length s) - Suc k" using Suc.hyps(2) by arith
    from Suc.hyps(1) [OF this nxt] show ?thesis .
  next
    case (Cons st rest)
    with Suc.prems show ?thesis
      by (auto simp: rsearch.simps [of ic r s k] split: if_splits)
  qed
qed






lemma ms_bounds:
  "st' \<in> set (ms ic r s st) \<Longrightarrow> fst st \<le> length s \<Longrightarrow> fst st \<le> fst st' \<and> fst st' \<le> length s"
proof (induction ic r s st arbitrary: st' rule: ms.induct)
  case (7 ic a b s st)
  from "7.prems" obtain x where x: "x \<in> set (ms ic a s st)" "st' \<in> set (ms ic b s x)"
    by auto
  have bx: "fst st \<le> fst x \<and> fst x \<le> length s" using "7.IH"(1) [OF x(1) "7.prems"(2)] .
  then have "fst x \<le> fst st' \<and> fst st' \<le> length s" using "7.IH"(2) [OF x(1) x(2)] by simp
  with bx show ?case by simp
next
  case (9 ic a s st)
  show ?case
  proof (cases "st' = st")
    case True
    with "9.prems" show ?thesis by simp
  next
    case False
    with "9.prems"(1) obtain x where x: "x \<in> set (ms ic a s st)"
      "fst st < fst x \<and> fst x \<le> length s" "st' \<in> set (ms ic (Star a) s x)"
      using ms_Star_unfold [of st' ic a s st] by blast
    have "fst x \<le> fst st' \<and> fst st' \<le> length s"
      using "9.IH"(2) [OF x(1) x(2) x(3)] x(2) by simp
    with x(2) show ?thesis by simp
  qed
qed (auto split: if_splits)



section \<open>What the symbol extraction appends\<close>




















section \<open>The loops over all matches end\<close>

lemma ms_consuming:
  "consuming r \<Longrightarrow> st' \<in> set (ms ic r s st) \<Longrightarrow> fst st \<le> length s \<Longrightarrow> fst st < fst st'"
proof (induction ic r s st arbitrary: st' rule: ms.induct)
  case (7 ic a b s st)
  from "7.prems"(2) obtain x where x: "x \<in> set (ms ic a s st)" "st' \<in> set (ms ic b s x)"
    by auto
  have bx: "fst st \<le> fst x" "fst x \<le> length s"
    using ms_bounds [OF x(1) "7.prems"(3)] by simp_all
  have bs: "fst x \<le> fst st'"
    using ms_bounds [OF x(2) bx(2)] by simp
  from "7.prems"(1) consider "consuming a" | "consuming b" by auto
  then show ?case
  proof cases
    case 1
    from "7.IH"(1) [OF 1 x(1) "7.prems"(3)] bs show ?thesis by simp
  next
    case 2
    from "7.IH"(2) [OF x(1) 2 x(2) bx(2)] bx(1) show ?thesis by simp
  qed
qed (auto split: if_splits)

lemma rsearch_index:
  "rsearch ic r s k = Some m \<Longrightarrow> k \<le> fst m \<and> fst m \<le> length s"
proof (induction "Suc (length s) - k" arbitrary: k)
  case 0
  then show ?case by (simp add: rsearch.simps)
next
  case (Suc n)
  show ?case
  proof (cases "ms ic r s (k, [])")
    case Nil
    with Suc.prems have nxt: "rsearch ic r s (Suc k) = Some m"
      by (simp add: rsearch.simps [of ic r s k] split: if_splits)
    have "n = Suc (length s) - Suc k" using Suc.hyps(2) by arith
    from Suc.hyps(1) [OF this nxt] show ?thesis by simp
  next
    case (Cons st rest)
    with Suc.prems show ?thesis
      by (auto simp: rsearch.simps [of ic r s k] split: if_splits)
  qed
qed

lemma exec_all_total:
  assumes "consuming r"
  shows "exec_all r s k \<noteq> None"
proof (induction "Suc (length s) - k" arbitrary: k rule: less_induct)
  case less
  show ?case
  proof (cases "rsearch False r s k")
    case None
    then show ?thesis by (simp add: exec_all.simps [of r s k])
  next
    case (Some m)
    have idx: "k \<le> fst m" "fst m \<le> length s"
      using rsearch_index [OF Some] by simp_all
    have mem: "snd m \<in> set (ms False r s (fst m, []))"
      using rsearch_result [OF Some] .
    have "fst m < fst (snd m)"
      using ms_consuming [OF assms mem] idx(2) by simp
    moreover have "fst (snd m) \<le> length s"
      using ms_bounds [OF mem] idx(2) by simp
    ultimately have guard: "k < m_end m" "m_end m \<le> length s"
      using idx(1) by (simp_all add: m_end_def)
    then have "Suc (length s) - m_end m < Suc (length s) - k" by arith
    from less.hyps [OF this] guard Some show ?thesis
      by (auto simp: exec_all.simps [of r s k])
  qed
qed

lemma global_patterns_consuming:
  "consuming re_funcCall" "consuming re_varDecl" "consuming re_parenLambda"
  "consuming re_bareLambda" "consuming re_propAssign" "consuming re_identifier"
  by (simp_all add: re_funcCall_def re_varDecl_def re_parenLambda_def re_bareLambda_def
      re_propAssign_def re_identifier_def seqs_def Plus_def ident_start_def wd_def sp_def)

section \<open>Whole words and the patterns that look for them\<close>









section \<open>Lines that start with elseif\<close>












section \<open>What the tracker reads off a line, in whole words\<close>






section \<open>The tracker on well-nested lines\<close>












section \<open>Where the symbol of a property path stands\<close>





















section \<open>break after a string literal that holds the comment sign\<close>

text \<open>
  Claim C4. A line that holds \<^verbatim>\<open>break\<close> as a whole word, outside strings and comments, while
  the loop counter is 0, yields exactly one Error that mentions \<^verbatim>\<open>break\<close>. The Error is
  emitted when the masked text of the line holds the word (\<open>break_error_when_seen\<close>), but
  the masked text is cut at the first \<^verbatim>\<open>#\<close> of the line before the string literals are
  removed. On the line \<^verbatim>\<open>s = "a#b" break\<close> the word \<^verbatim>\<open>break\<close> stands at column 10, outside the
  literal, and the only \<^verbatim>\<open>#\<close> of the line stands inside the literal, so the line has no
  comment; the loop counter is 0; and \<open>analyze\<close> emits no Error at all: the masked text is
  \<^verbatim>\<open>s = "a\<close>. With the literals removed first, as \<^verbatim>\<open>validateSemantics\<close> does, the text is
  \<^verbatim>\<open>s = "" break\<close>.
\<close>

theorem break_after_literal_unseen:
  \<open>lines doc_hash_break = [''s = "a#b" break'']
   \<and> word_at ''break'' ''s = "a#b" break'' 10
   \<and> list_all (\<lambda>k. string_state ''s = "a#b" break'' k = None) [10..<16]
   \<and> filter (\<lambda>k. ''s = "a#b" break'' ! k = CHR ''#'' \<and> string_state ''s = "a#b" break'' k = None)
        [0..<15] = []
   \<and> code_text ''s = "a#b" break'' = ''s = "" break''
   \<and> masked ''s = "a#b" break'' = ''s = "a''
   \<and> inLoop (syntax_scan (analyzer_reset doc_hash_break)) = 0
   \<and> fst (analyze doc_hash_break)
       = [Diagnostic Warning 0 0 0 1 (undefined_variable_message ''s'') ''jyro'']\<close>
  by code_simp

text \<open>The loop counter is read after the block keywords and the \<^verbatim>\<open>end\<close> of the line itself
  were handled: a loop that opens and closes on the line of the \<^verbatim>\<open>break\<close> does not count.\<close>

lemma break_on_the_line_of_its_loop:
  \<open>fst (analyze doc_loop_line)
     = [Diagnostic Error 0 0 0 23 ''"break" can only be used inside loops'' ''jyro'']\<close>
  by code_simp

section \<open>Comments cut inside string literals\<close>

text \<open>On a line with \<^verbatim>\<open>#\<close> inside a string literal the masked text of \<^verbatim>\<open>checkSyntax\<close> ends in
  the middle of the literal, and what follows the literal is not seen: such lines are not
  \<open>comment_safe\<close>. The \<^verbatim>\<open>end\<close> after the literal below closes the block for a reader and not
  for the tracker.\<close>

lemma end_after_literal_unseen:
  \<open>lines doc_hash_end = [''if true then'', ''true = "#" end'']
   \<and> block_tokens (lines doc_hash_end) = [''if'', ''end'']
   \<and> \<not> comment_safe ''true = "#" end''
   \<and> masked ''true = "#" end'' = ''true = "''
   \<and> fst (analyze doc_hash_end) = [Diagnostic Error 0 0 0 12 (unclosed_message ''if'') ''jyro'']\<close>
  by code_simp

end
